theory Spec2Isabelle
  imports Complex_Main
begin

section \<open>JavaScript values of the evaluation front end\<close>

text \<open>
  The functions verified here are the score decoding functions of
  \<^verbatim>\<open>src/frontend/static/app.js\<close>: \<^verbatim>\<open>extractScore\<close>, \<^verbatim>\<open>normalizeScoreValue\<close>,
  \<^verbatim>\<open>parseResponseJSON\<close>, the bindings computed by \<^verbatim>\<open>renderEvaluationView\<close>,
  \<^verbatim>\<open>formatLabel\<close>, \<^verbatim>\<open>getScoreClass\<close>, \<^verbatim>\<open>getScoreStyle\<close>, \<^verbatim>\<open>formatScore\<close>, and the score cells
  of \<^verbatim>\<open>renderScoreSummary\<close> and \<^verbatim>\<open>handleDownloadCsv\<close>.

  A JavaScript string is a sequence of UTF-16 code units; a code unit is an \<^typ>\<open>int\<close>
  (from 0 to 65535 in every string the platform builds). \<open>js\<close> embeds an ASCII literal.
\<close>

type_synonym jsstr = "int list"

definition js :: "string \<Rightarrow> jsstr" where
  "js s = map of_char s"

subsection \<open>Numbers\<close>

text \<open>
  A JavaScript number is an IEEE 754 binary64 value: a finite value is kept as the
  rational it denotes exactly, next to the two infinities and NaN. The two zeros are one
  value here: the program never divides by a score and prints both zeros alike.
\<close>

datatype jsnum = Fin rat | PosInf | NegInf | NaN

definition pow2 :: "int \<Rightarrow> rat" where
  "pow2 e = (if 0 \<le> e then 2 ^ nat e else 1 / 2 ^ nat (- e))"

function bit_length :: "int \<Rightarrow> int" where
  \<comment> \<open>the number of binary digits of a positive integer\<close>
  "bit_length n = (if n \<le> 0 then 0 else 1 + bit_length (n div 2))"
  by pat_completeness auto
termination
  by (relation "measure nat") auto

declare bit_length.simps [simp del]

definition ilog2 :: "rat \<Rightarrow> int" where
  \<comment> \<open>\<open>\<lfloor>log\<^sub>2 q\<rfloor>\<close> for a positive rational, from the bit lengths of numerator and denominator\<close>
  "ilog2 q =
     (let (a, b) = quotient_of q;
          e = bit_length a - bit_length b
      in if pow2 e \<le> q then e else e - 1)"

definition round_even :: "rat \<Rightarrow> int" where
  \<comment> \<open>round to the nearest integer, a tie to the even one\<close>
  "round_even x =
     (let n = \<lfloor>x\<rfloor>; d = x - of_int n
      in if d < 1 / 2 then n
         else if 1 / 2 < d then n + 1
         else if even n then n else n + 1)"

definition fl :: "rat \<Rightarrow> jsnum" where
  \<comment> \<open>the binary64 value of an exact result: round to nearest, ties to even; 53 bits of
      significand, least exponent \<open>-1022\<close> (subnormals below), overflow from \<open>2\<^sup>1\<^sup>0\<^sup>2\<^sup>4\<close>\<close>
  "fl q =
     (if q = 0 then Fin 0
      else let a = \<bar>q\<bar>;
               e = max (ilog2 a) (- 1022);
               u = pow2 (e - 52);
               r = of_int (round_even (a / u)) * u
           in if (if e < 1023 then False else pow2 1024 \<le> r)
              then (if q < 0 then NegInf else PosInf)
              else Fin (if q < 0 then - r else r))"

fun num_div :: "jsnum \<Rightarrow> rat \<Rightarrow> jsnum" where
  \<comment> \<open>\<^verbatim>\<open>x / d\<close> for a positive finite constant \<open>d\<close>\<close>
  "num_div (Fin q) d = fl (q / d)"
| "num_div x d = x"

fun num_mul :: "jsnum \<Rightarrow> rat \<Rightarrow> jsnum" where
  \<comment> \<open>\<^verbatim>\<open>x * d\<close> for a positive finite constant \<open>d\<close>\<close>
  "num_mul (Fin q) d = fl (q * d)"
| "num_mul x d = x"

fun math_min :: "rat \<Rightarrow> jsnum \<Rightarrow> jsnum" where
  \<comment> \<open>\<^verbatim>\<open>Math.min(c, x)\<close> for a finite constant \<open>c\<close>\<close>
  "math_min c (Fin q) = Fin (min c q)"
| "math_min c PosInf = Fin c"
| "math_min c NegInf = NegInf"
| "math_min c NaN = NaN"

fun math_max :: "rat \<Rightarrow> jsnum \<Rightarrow> jsnum" where
  \<comment> \<open>\<^verbatim>\<open>Math.max(c, x)\<close> for a finite constant \<open>c\<close>\<close>
  "math_max c (Fin q) = Fin (max c q)"
| "math_max c PosInf = PosInf"
| "math_max c NegInf = Fin c"
| "math_max c NaN = NaN"

subsection \<open>Character classes and string functions\<close>

definition is_digit :: "int \<Rightarrow> bool" where
  "is_digit c = (48 \<le> c \<and> c \<le> 57)"

definition is_word :: "int \<Rightarrow> bool" where
  \<comment> \<open>the class \<^verbatim>\<open>\w\<close>: \<^verbatim>\<open>[A-Za-z0-9_]\<close>\<close>
  "is_word c = ((65 \<le> c \<and> c \<le> 90) \<or> (97 \<le> c \<and> c \<le> 122) \<or> is_digit c \<or> c = 95)"

definition is_space :: "int \<Rightarrow> bool" where
  \<comment> \<open>the class \<^verbatim>\<open>\s\<close>, also the white space \<^verbatim>\<open>parseFloat\<close> skips: ECMAScript's
      WhiteSpace and LineTerminator code points\<close>
  "is_space c =
     (if c < 256 then c = 9 \<or> c = 10 \<or> c = 11 \<or> c = 12 \<or> c = 13 \<or> c = 32 \<or> c = 160
      else c = 5760 \<or> (8192 \<le> c \<and> c \<le> 8202) \<or> c = 8232 \<or> c = 8233 \<or> c = 8239 \<or>
           c = 8287 \<or> c = 12288 \<or> c = 65279)"

definition lower_unit :: "int \<Rightarrow> int" where
  "lower_unit c = (if 65 \<le> c \<and> c \<le> 90 then c + 32 else c)"

definition upper_unit :: "int \<Rightarrow> int" where
  "upper_unit c = (if 97 \<le> c \<and> c \<le> 122 then c - 32 else c)"

definition toLowerCase :: "jsstr \<Rightarrow> jsstr" where
  \<comment> \<open>\<^verbatim>\<open>String.prototype.toLowerCase\<close> on the ASCII letters. Unicode lowers other code
      points too, but to no ASCII letter of the literals the program compares the result
      with (the two ASCII-producing mappings are U+212A to \<^verbatim>\<open>k\<close> and U+0130 to \<^verbatim>\<open>i\<close>
      followed by U+0307), so those comparisons read the same.\<close>
  "toLowerCase s = map lower_unit s"

fun starts_with :: "jsstr \<Rightarrow> jsstr \<Rightarrow> bool" where
  "starts_with s [] = True"
| "starts_with [] (p # ps) = False"
| "starts_with (c # cs) (p # ps) = (c = p \<and> starts_with cs ps)"

fun str_includes :: "jsstr \<Rightarrow> jsstr \<Rightarrow> bool" where
  \<comment> \<open>\<^verbatim>\<open>s.includes(p)\<close>\<close>
  "str_includes [] p = (p = [])"
| "str_includes (c # cs) p = (starts_with (c # cs) p \<or> str_includes cs p)"

definition digits_value :: "jsstr \<Rightarrow> int" where
  \<comment> \<open>the number a run of decimal digits denotes\<close>
  "digits_value ds = foldl (\<lambda>a d. 10 * a + (d - 48)) 0 ds"

subsection \<open>Values and property reads\<close>

text \<open>
  Every value the functions receive comes out of \<^verbatim>\<open>JSON.parse\<close> (or out of
  \<^verbatim>\<open>res.json()\<close>), so it is a JSON value; \<^verbatim>\<open>undefined\<close>, which only a property read or
  a missing argument produces, is \<open>None\<close> of \<^typ>\<open>'a option\<close>. An object keeps its own
  properties in creation order, one entry per key.
\<close>

datatype json =
    JNull
  | JBool bool
  | JNum jsnum
  | JStr jsstr
  | JArr "json list"
  | JObj "(jsstr \<times> json) list"

datatype error = TypeError | SyntaxError

fun truthy :: "json \<Rightarrow> bool" where
  "truthy JNull = False"
| "truthy (JBool b) = b"
| "truthy (JNum x) = (x \<noteq> Fin 0 \<and> x \<noteq> NaN)"
| "truthy (JStr s) = (s \<noteq> [])"
| "truthy (JArr xs) = True"
| "truthy (JObj kvs) = True"

fun getProp :: "json \<Rightarrow> jsstr \<Rightarrow> error + json option" where
  \<comment> \<open>\<^verbatim>\<open>v.k\<close> for the property names the program reads (\<^verbatim>\<open>overall_score\<close>, \<^verbatim>\<open>score\<close>,
      \<^verbatim>\<open>overall_pass\<close>, \<^verbatim>\<open>summary\<close>, \<^verbatim>\<open>flags\<close>, \<^verbatim>\<open>response\<close>, \<^verbatim>\<open>reasoning\<close>,
      \<^verbatim>\<open>misclassified_runs\<close>, \<^verbatim>\<open>fake_passes_detected\<close>, \<^verbatim>\<open>run_id\<close>, \<^verbatim>\<open>claimed\<close>, \<^verbatim>\<open>actual\<close>,
      the dimension names): no prototype has them, so only an object's own property is
      found, and reading from \<^verbatim>\<open>null\<close> throws\<close>
  "getProp JNull k = Inl TypeError"
| "getProp (JObj kvs) k = Inr (map_of kvs k)"
| "getProp v k = Inr None"

fun obj_put :: "(jsstr \<times> json) list \<Rightarrow> jsstr \<Rightarrow> json \<Rightarrow> (jsstr \<times> json) list" where
  \<comment> \<open>\<^verbatim>\<open>CreateDataProperty\<close>: a new key goes last, a repeated key keeps its place and
      takes the new value\<close>
  "obj_put [] k v = [(k, v)]"
| "obj_put ((k', v') # kvs) k v =
     (if k' = k then (k, v) # kvs else (k', v') # obj_put kvs k v)"

subsection \<open>\<^verbatim>\<open>JSON.parse\<close>\<close>

definition is_json_ws :: "int \<Rightarrow> bool" where
  "is_json_ws c = (c = 32 \<or> c = 9 \<or> c = 10 \<or> c = 13)"

definition skip_ws :: "jsstr \<Rightarrow> jsstr" where
  "skip_ws s = dropWhile is_json_ws s"

definition hex_value :: "int \<Rightarrow> int option" where
  "hex_value c =
     (if is_digit c then Some (c - 48)
      else if 97 \<le> c \<and> c \<le> 102 then Some (c - 87)
      else if 65 \<le> c \<and> c \<le> 70 then Some (c - 55)
      else None)"

definition hex4 :: "int \<Rightarrow> int \<Rightarrow> int \<Rightarrow> int \<Rightarrow> int option" where
  "hex4 a b c d =
     (case (hex_value a, hex_value b, hex_value c, hex_value d) of
        (Some w, Some x, Some y, Some z) \<Rightarrow> Some (4096 * w + 256 * x + 16 * y + z)
      | _ \<Rightarrow> None)"

definition escape_unit :: "int \<Rightarrow> int option" where
  \<comment> \<open>the single-character escapes \<^verbatim>\<open>\" \\ \/ \b \f \n \r \t\<close>\<close>
  "escape_unit e =
     (if e = 34 \<or> e = 92 \<or> e = 47 then Some e
      else if e = 98 then Some 8
      else if e = 102 then Some 12
      else if e = 110 then Some 10
      else if e = 114 then Some 13
      else if e = 116 then Some 9
      else None)"

definition push_unit :: "int \<Rightarrow> (jsstr \<times> jsstr) option \<Rightarrow> (jsstr \<times> jsstr) option" where
  "push_unit u r = (case r of None \<Rightarrow> None | Some (s, t) \<Rightarrow> Some (u # s, t))"

fun json_string :: "jsstr \<Rightarrow> (jsstr \<times> jsstr) option" where
  \<comment> \<open>the characters of a string after its opening quote, and what follows the closing one\<close>
  "json_string [] = None"
| "json_string (c # cs) =
     (if c = 34 then Some ([], cs)
      else if c = 92 then
        (case cs of
           [] \<Rightarrow> None
         | e # r \<Rightarrow>
             if e = 117 then
               (case r of
                  h1 # h2 # h3 # h4 # r' \<Rightarrow>
                    (case hex4 h1 h2 h3 h4 of
                       None \<Rightarrow> None
                     | Some u \<Rightarrow> push_unit u (json_string r'))
                | _ \<Rightarrow> None)
             else
               (case escape_unit e of
                  None \<Rightarrow> None
                | Some u \<Rightarrow> push_unit u (json_string r)))
      else if c < 32 then None
      else push_unit c (json_string cs))"

definition decimal_value :: "jsstr \<Rightarrow> jsstr \<Rightarrow> int \<Rightarrow> rat" where
  \<comment> \<open>the mathematical value of \<^verbatim>\<open>ip.fp\<close> times ten to the \<open>ex\<close>\<close>
  "decimal_value ip fp ex =
     of_int (digits_value (ip @ fp)) / 10 ^ length fp *
     (if 0 \<le> ex then 10 ^ nat ex else 1 / 10 ^ nat (- ex))"

definition scan_exponent :: "jsstr \<Rightarrow> (int \<times> jsstr) option" where
  \<comment> \<open>an exponent part \<^verbatim>\<open>[eE][+-]?[0-9]+\<close> at the head of the text, if there is one\<close>
  "scan_exponent s =
     (case s of
        [] \<Rightarrow> None
      | c # r \<Rightarrow>
          if c = 101 \<or> c = 69 then
            (let neg = (r \<noteq> [] \<and> hd r = 45);
                 r1 = (if r \<noteq> [] \<and> (hd r = 45 \<or> hd r = 43) then tl r else r);
                 ds = takeWhile is_digit r1
             in if ds = [] then None
                else Some (if neg then - digits_value ds else digits_value ds,
                           dropWhile is_digit r1))
          else None)"

definition json_number :: "jsstr \<Rightarrow> (jsnum \<times> jsstr) option" where
  \<comment> \<open>\<^verbatim>\<open>-?(0|[1-9][0-9]*)(\.[0-9]+)?([eE][+-]?[0-9]+)?\<close>\<close>
  "json_number s =
     (let neg = (s \<noteq> [] \<and> hd s = 45);
          s1 = (if neg then tl s else s);
          ip = (if s1 \<noteq> [] \<and> hd s1 = 48 then [48] else takeWhile is_digit s1);
          s2 = drop (length ip) s1
      in if ip = [] then None
         else
           (let dot = (s2 \<noteq> [] \<and> hd s2 = 46);
                fp = (if dot then takeWhile is_digit (tl s2) else []);
                s3 = (if dot then dropWhile is_digit (tl s2) else s2)
            in if dot \<and> fp = [] then None
               else
                 (let (ex, s4) = (case scan_exponent s3 of None \<Rightarrow> (0, s3) | Some p \<Rightarrow> p);
                      q = decimal_value ip fp ex
                  in if s3 \<noteq> [] \<and> (hd s3 = 101 \<or> hd s3 = 69) \<and> scan_exponent s3 = None
                     then None
                     else Some (fl (if neg then - q else q), s4))))"

fun json_value :: "nat \<Rightarrow> jsstr \<Rightarrow> (json \<times> jsstr) option"
  and json_elements :: "nat \<Rightarrow> json list \<Rightarrow> jsstr \<Rightarrow> (json \<times> jsstr) option"
  and json_members :: "nat \<Rightarrow> (jsstr \<times> json) list \<Rightarrow> jsstr \<Rightarrow> (json \<times> jsstr) option"
where
  "json_value 0 s = None"
| "json_value (Suc n) s =
     (case skip_ws s of
        [] \<Rightarrow> None
      | c # cs \<Rightarrow>
          if c = 123 then
            (case skip_ws cs of
               [] \<Rightarrow> None
             | d # r \<Rightarrow> if d = 125 then Some (JObj [], r) else json_members n [] (d # r))
          else if c = 91 then
            (case skip_ws cs of
               [] \<Rightarrow> None
             | d # r \<Rightarrow> if d = 93 then Some (JArr [], r) else json_elements n [] (d # r))
          else if c = 34 then
            (case json_string cs of None \<Rightarrow> None | Some (str, r) \<Rightarrow> Some (JStr str, r))
          else if starts_with (c # cs) (js ''true'') then Some (JBool True, drop 4 (c # cs))
          else if starts_with (c # cs) (js ''false'') then Some (JBool False, drop 5 (c # cs))
          else if starts_with (c # cs) (js ''null'') then Some (JNull, drop 4 (c # cs))
          else if c = 45 \<or> is_digit c then
            (case json_number (c # cs) of None \<Rightarrow> None | Some (x, r) \<Rightarrow> Some (JNum x, r))
          else None)"
| "json_elements 0 acc s = None"
| "json_elements (Suc n) acc s =
     (case json_value n s of
        None \<Rightarrow> None
      | Some (v, r) \<Rightarrow>
          (case skip_ws r of
             [] \<Rightarrow> None
           | d # r' \<Rightarrow>
               if d = 44 then json_elements n (acc @ [v]) r'
               else if d = 93 then Some (JArr (acc @ [v]), r')
               else None))"
| "json_members 0 acc s = None"
| "json_members (Suc n) acc s =
     (case skip_ws s of
        [] \<Rightarrow> None
      | c # cs \<Rightarrow>
          if c \<noteq> 34 then None
          else
            (case json_string cs of
               None \<Rightarrow> None
             | Some (k, r) \<Rightarrow>
                 (case skip_ws r of
                    [] \<Rightarrow> None
                  | d # r1 \<Rightarrow>
                      if d \<noteq> 58 then None
                      else
                        (case json_value n r1 of
                           None \<Rightarrow> None
                         | Some (v, r2) \<Rightarrow>
                             (case skip_ws r2 of
                                [] \<Rightarrow> None
                              | e # r3 \<Rightarrow>
                                  if e = 44 then json_members n (obj_put acc k v) r3
                                  else if e = 125 then Some (JObj (obj_put acc k v), r3)
                                  else None)))))"

definition JSON_parse :: "jsstr \<Rightarrow> error + json" where
  \<comment> \<open>one value between white space, or a \<^verbatim>\<open>SyntaxError\<close>; the fuel bounds the number of
      nested calls, which the length of the text bounds\<close>
  "JSON_parse s =
     (case json_value (2 * length s + 2) s of
        None \<Rightarrow> Inl SyntaxError
      | Some (v, r) \<Rightarrow> if skip_ws r = [] then Inr v else Inl SyntaxError)"

subsection \<open>Regular expressions and \<^verbatim>\<open>String.prototype.match\<close>\<close>

text \<open>
  The fragment of ECMAScript regular expressions the program uses, with the backtracking
  order of the language: a matcher returns the states it can end in, the preferred one
  first. A state is the text left and the value of capture group 1 (each of the three
  expressions has one group). A star never repeats an iteration that consumed nothing.
\<close>

datatype re =
    Str jsstr        \<comment> \<open>a literal run of characters\<close>
  | Space            \<comment> \<open>\<^verbatim>\<open>\s\<close>\<close>
  | Digit            \<comment> \<open>\<^verbatim>\<open>\d\<close>\<close>
  | AnyUnit          \<comment> \<open>\<^verbatim>\<open>[\s\S]\<close>\<close>
  | Seq re re
  | Star re          \<comment> \<open>greedy \<^verbatim>\<open>*\<close>\<close>
  | LazyStar re      \<comment> \<open>\<^verbatim>\<open>*?\<close>\<close>
  | Opt re           \<comment> \<open>greedy \<^verbatim>\<open>?\<close>\<close>
  | Group re         \<comment> \<open>capture group 1\<close>

type_synonym mstate = "jsstr \<times> jsstr option"

fun starts_with_ci :: "jsstr \<Rightarrow> jsstr \<Rightarrow> bool" where
  \<comment> \<open>with the \<^verbatim>\<open>i\<close> flag two characters match when they canonicalize (to upper case) alike\<close>
  "starts_with_ci s [] = True"
| "starts_with_ci [] (p # ps) = False"
| "starts_with_ci (c # cs) (p # ps) = (upper_unit c = upper_unit p \<and> starts_with_ci cs ps)"

definition match_class :: "(int \<Rightarrow> bool) \<Rightarrow> mstate \<Rightarrow> mstate list" where
  "match_class P st =
     (case fst st of [] \<Rightarrow> [] | c # cs \<Rightarrow> if P c then [(cs, snd st)] else [])"

fun star_iter :: "(mstate \<Rightarrow> mstate list) \<Rightarrow> bool \<Rightarrow> nat \<Rightarrow> mstate \<Rightarrow> mstate list" where
  "star_iter f greedy 0 st = [st]"
| "star_iter f greedy (Suc n) st =
     (let more = concat (map (star_iter f greedy n)
                   (filter (\<lambda>st'. length (fst st') < length (fst st)) (f st)))
      in if greedy then more @ [st] else st # more)"

primrec rmatch :: "bool \<Rightarrow> re \<Rightarrow> mstate \<Rightarrow> mstate list" where
  "rmatch ic (Str p) st =
     (if (if ic then starts_with_ci (fst st) p else starts_with (fst st) p)
      then [(drop (length p) (fst st), snd st)] else [])"
| "rmatch ic Space st = match_class is_space st"
| "rmatch ic Digit st = match_class is_digit st"
| "rmatch ic AnyUnit st = match_class (\<lambda>c. True) st"
| "rmatch ic (Seq a b) st = concat (map (rmatch ic b) (rmatch ic a st))"
| "rmatch ic (Star a) st = star_iter (rmatch ic a) True (length (fst st)) st"
| "rmatch ic (LazyStar a) st = star_iter (rmatch ic a) False (length (fst st)) st"
| "rmatch ic (Opt a) st = rmatch ic a st @ [st]"
| "rmatch ic (Group a) st =
     map (\<lambda>st'. (fst st', Some (take (length (fst st) - length (fst st')) (fst st))))
       (rmatch ic a st)"

fun exec_from :: "bool \<Rightarrow> re \<Rightarrow> jsstr \<Rightarrow> jsstr option option" where
  \<comment> \<open>the leftmost match: its group 1 (\<open>None\<close> inside: the group did not take part)\<close>
  "exec_from ic r [] =
     (case rmatch ic r ([], None) of m # ms \<Rightarrow> Some (snd m) | [] \<Rightarrow> None)"
| "exec_from ic r (c # cs) =
     (case rmatch ic r (c # cs, None) of
        m # ms \<Rightarrow> Some (snd m)
      | [] \<Rightarrow> exec_from ic r cs)"

definition str_match :: "bool \<times> re \<Rightarrow> jsstr \<Rightarrow> jsstr option option" where
  \<comment> \<open>\<^verbatim>\<open>s.match(regex)\<close> for a regex without the \<^verbatim>\<open>g\<close> flag: \<open>None\<close> is \<^verbatim>\<open>null\<close>, \<open>Some g\<close> a
      match whose element 1 is \<open>g\<close>\<close>
  "str_match fr s = exec_from (fst fr) (snd fr) s"

definition group_text :: "jsstr option \<Rightarrow> jsstr" where
  \<comment> \<open>\<^verbatim>\<open>ToString(match[1])\<close>, as \<^verbatim>\<open>JSON.parse\<close> and \<^verbatim>\<open>parseFloat\<close> apply it to their argument\<close>
  "group_text g = (case g of None \<Rightarrow> js ''undefined'' | Some t \<Rightarrow> t)"

fun seqs :: "re list \<Rightarrow> re" where
  "seqs [] = Str []"
| "seqs [r] = r"
| "seqs (r # rs) = Seq r (seqs rs)"

definition plus :: "re \<Rightarrow> re" where
  "plus r = Seq r (Star r)"

definition fence_mark :: jsstr where
  \<comment> \<open>three backquotes\<close>
  "fence_mark = [96, 96, 96]"

definition fence_re :: "bool \<times> re" where
  \<comment> \<open>the fence expression of \<^verbatim>\<open>extractScore\<close> and \<^verbatim>\<open>parseResponseJSON\<close>: the mark and
      \<^verbatim>\<open>json\<close>, \<^verbatim>\<open>\s*\<close>, the group \<^verbatim>\<open>([\s\S]*?)\<close>, \<^verbatim>\<open>\s*\<close>, the mark\<close>
  "fence_re =
     (False, seqs [Str (fence_mark @ js ''json''), Star Space, Group (LazyStar AnyUnit),
                   Star Space, Str fence_mark])"

definition number_re :: re where
  \<comment> \<open>\<^verbatim>\<open>\d+(?:\.\d+)?\<close>\<close>
  "number_re = Seq (plus Digit) (Opt (Seq (Str (js ''.'')) (plus Digit)))"

definition quoted_score_re :: "bool \<times> re" where
  \<comment> \<open>\<^verbatim>\<open>/"score"\s*:\s*"?(\d+(?:\.\d+)?)"?/\<close>\<close>
  "quoted_score_re =
     (False, seqs [Str (js ''\"score\"''), Star Space, Str (js '':''), Star Space,
                   Opt (Str (js ''\"'')), Group number_re, Opt (Str (js ''\"''))])"

definition loose_score_re :: "bool \<times> re" where
  \<comment> \<open>\<^verbatim>\<open>/score:\s*(\d+(?:\.\d+)?)/i\<close>\<close>
  "loose_score_re = (True, seqs [Str (js ''score:''), Star Space, Group number_re])"

subsection \<open>\<^verbatim>\<open>parseFloat\<close>\<close>

definition strip_sign :: "jsstr \<Rightarrow> jsstr" where
  "strip_sign t = (if t \<noteq> [] \<and> (hd t = 45 \<or> hd t = 43) then tl t else t)"

definition float_prefix :: "jsstr \<Rightarrow> (jsnum \<times> jsstr) option" where
  \<comment> \<open>the longest prefix, after leading white space, that is a StrDecimalLiteral: a
      sign, then \<^verbatim>\<open>Infinity\<close> or digits with an optional fraction and exponent. The result
      is its value and the text after it.\<close>
  "float_prefix s =
     (let t = dropWhile is_space s;
          neg = (t \<noteq> [] \<and> hd t = 45);
          t1 = strip_sign t
      in if starts_with t1 (js ''Infinity'')
         then Some (if neg then NegInf else PosInf, drop 8 t1)
         else
           (let ip = takeWhile is_digit t1;
                t2 = dropWhile is_digit t1;
                dot = (t2 \<noteq> [] \<and> hd t2 = 46);
                fp = (if dot then takeWhile is_digit (tl t2) else []);
                t3 = (if dot then dropWhile is_digit (tl t2) else t2)
            in if ip = [] \<and> fp = [] then None
               else
                 (let (ex, t4) = (case scan_exponent t3 of None \<Rightarrow> (0, t3) | Some p \<Rightarrow> p);
                      q = decimal_value ip fp ex
                  in Some (fl (if neg then - q else q), t4))))"

definition parseFloat :: "jsstr \<Rightarrow> jsnum" where
  \<comment> \<open>NaN when no prefix is a number; what follows the prefix is ignored\<close>
  "parseFloat s = (case float_prefix s of None \<Rightarrow> NaN | Some p \<Rightarrow> fst p)"

section \<open>The score functions\<close>

subsection \<open>\<^verbatim>\<open>normalizeScoreValue\<close>\<close>

definition PASS :: json where
  "PASS = JStr (js ''PASS'')"

definition FAIL :: json where
  "FAIL = JStr (js ''FAIL'')"

fun normalizeScoreValue :: "json option \<Rightarrow> json" where
  "normalizeScoreValue None = JNull"
| "normalizeScoreValue (Some JNull) = JNull"
| "normalizeScoreValue (Some (JNum x)) = JNum x"
| "normalizeScoreValue (Some (JStr s)) =
     (let lower = toLowerCase s
      in if lower = js ''pass'' then PASS
         else if lower = js ''fail'' then FAIL
         else (let parsed = parseFloat s
               in if parsed \<noteq> NaN then JNum parsed else JNull))"
| "normalizeScoreValue (Some v) = JNull"

subsection \<open>\<^verbatim>\<open>extractScore\<close>\<close>

definition scoreOf :: "json \<Rightarrow> error + json option" where
  \<comment> \<open>the two key tests on a parsed value: \<open>Some\<close> a score when one of them returns, \<open>None\<close>
      when neither key is there, a \<^verbatim>\<open>TypeError\<close> when the value is \<^verbatim>\<open>null\<close>\<close>
  "scoreOf parsed =
     (case getProp parsed (js ''overall_score'') of
        Inl e \<Rightarrow> Inl e
      | Inr (Some v) \<Rightarrow> Inr (Some (normalizeScoreValue (Some v)))
      | Inr None \<Rightarrow>
          (case getProp parsed (js ''score'') of
             Inl e \<Rightarrow> Inl e
           | Inr (Some v) \<Rightarrow> Inr (Some (normalizeScoreValue (Some v)))
           | Inr None \<Rightarrow> Inr None))"

definition tryScore :: "jsstr \<Rightarrow> json option" where
  \<comment> \<open>\<^verbatim>\<open>try { const parsed = JSON.parse(text); ... } catch (e) { /* continue */ }\<close>: an
      exception of the block, from the parse or from a property read, leaves no result\<close>
  "tryScore text =
     (case JSON_parse text of
        Inl e \<Rightarrow> None
      | Inr parsed \<Rightarrow> (case scoreOf parsed of Inl e \<Rightarrow> None | Inr r \<Rightarrow> r))"

fun firstNumeric :: "(bool \<times> re) list \<Rightarrow> jsstr \<Rightarrow> json" where
  \<comment> \<open>the loop over \<^verbatim>\<open>patterns\<close>, and the final \<^verbatim>\<open>return null\<close>\<close>
  "firstNumeric [] s = JNull"
| "firstNumeric (pattern # patterns) s =
     (case str_match pattern s of
        Some g \<Rightarrow> JNum (parseFloat (group_text g))
      | None \<Rightarrow> firstNumeric patterns s)"

definition keywordScore :: "jsstr \<Rightarrow> json" where
  \<comment> \<open>from the pass/fail keyword test to the end of \<^verbatim>\<open>extractScore\<close>\<close>
  "keywordScore s =
     (let lower = toLowerCase s
      in if str_includes lower (js ''\"overall_score\": \"pass\"'') \<or>
            str_includes lower (js ''\"overall_score\":\"pass\"'') then PASS
         else if str_includes lower (js ''\"overall_score\": \"fail\"'') \<or>
                 str_includes lower (js ''\"overall_score\":\"fail\"'') then FAIL
         else firstNumeric [quoted_score_re, loose_score_re] s)"

definition fencedScore :: "jsstr \<Rightarrow> json option" where
  \<comment> \<open>the first strategy: the fenced block, parsed\<close>
  "fencedScore s =
     (case str_match fence_re s of
        None \<Rightarrow> None
      | Some g \<Rightarrow> tryScore (group_text g))"

definition extractScore :: "json \<Rightarrow> error + json" where
  \<comment> \<open>\<^verbatim>\<open>response.match\<close> is a function only when \<^verbatim>\<open>response\<close> is a string: calling it on any
      other truthy value throws a \<^verbatim>\<open>TypeError\<close>, outside every \<^verbatim>\<open>try\<close>\<close>
  "extractScore response =
     (if \<not> truthy response then Inr JNull
      else
        (case response of
           JStr s \<Rightarrow>
             (case fencedScore s of
                Some score \<Rightarrow> Inr score
              | None \<Rightarrow>
                  (case tryScore s of
                     Some score \<Rightarrow> Inr score
                   | None \<Rightarrow> Inr (keywordScore s)))
         | _ \<Rightarrow> Inl TypeError))"

subsection \<open>\<^verbatim>\<open>parseResponseJSON\<close>\<close>

definition parseResponseJSON :: "json \<Rightarrow> json" where
  "parseResponseJSON response =
     (if \<not> truthy response then JNull
      else
        (case response of
           JArr xs \<Rightarrow> response
         | JObj kvs \<Rightarrow> response
         | JStr s \<Rightarrow>
             (let raw = (case str_match fence_re s of Some g \<Rightarrow> group_text g | None \<Rightarrow> s)
              in case JSON_parse raw of Inl e \<Rightarrow> JNull | Inr v \<Rightarrow> v)
         | _ \<Rightarrow> JNull))"

subsection \<open>\<^verbatim>\<open>getScoreClass\<close>, \<^verbatim>\<open>getScoreStyle\<close>, \<^verbatim>\<open>formatScore\<close>\<close>

definition getScoreClass :: "json \<Rightarrow> jsstr" where
  "getScoreClass score =
     (if score = JNull then js ''score-na''
      else if score = PASS then js ''score-pass''
      else if score = FAIL then js ''score-fail''
      else (case score of JNum x \<Rightarrow> js ''score-gradient'' | _ \<Rightarrow> js ''score-na''))"

text \<open>
  \<^verbatim>\<open>getScoreStyle\<close> returns the empty string or a style attribute that sets
  \<^verbatim>\<open>--score-color\<close> to \<^verbatim>\<open>hsl(hue, 70%, 50%)\<close>. The model returns the hue, the one part of the
  text that varies.
\<close>

datatype style = NoStyle | ScoreColor jsnum

definition getScoreStyle :: "json \<Rightarrow> style" where
  "getScoreStyle score =
     (case score of
        JNum x \<Rightarrow>
          if x = NaN then NoStyle
          else (let clamped = math_max 0 (math_min 5 x);
                    hue = num_mul (num_div clamped 5) 120
                in ScoreColor hue)
      | _ \<Rightarrow> NoStyle)"

function dec_digits :: "int \<Rightarrow> jsstr" where
  \<comment> \<open>the decimal digits of a natural number\<close>
  "dec_digits n = (if n < 10 then [48 + n] else dec_digits (n div 10) @ [48 + n mod 10])"
  by pat_completeness auto
termination
  by (relation "measure nat") auto

declare dec_digits.simps [simp del]

definition fixed1 :: "rat \<Rightarrow> jsstr" where
  \<comment> \<open>\<^verbatim>\<open>toFixed(1)\<close> below \<open>10\<^sup>2\<^sup>1\<close>: the integer \<open>n\<close> with \<open>n / 10\<close> nearest to \<open>a\<close>, the larger
      of two; its digits with a point before the last\<close>
  "fixed1 a =
     (let n = \<lfloor>a * 10 + 1 / 2\<rfloor>
      in dec_digits (n div 10) @ [46, 48 + n mod 10])"

definition toFixed1 :: "(rat \<Rightarrow> jsstr) \<Rightarrow> jsnum \<Rightarrow> jsstr" where
  \<comment> \<open>\<^verbatim>\<open>x.toFixed(1)\<close>. From \<open>10\<^sup>2\<^sup>1\<close> on the result is the platform's Number::toString,
      in exponent notation: the parameter \<open>numberToString\<close>, which no theorem constrains.\<close>
  "toFixed1 numberToString x =
     (case x of
        NaN \<Rightarrow> js ''NaN''
      | PosInf \<Rightarrow> js ''Infinity''
      | NegInf \<Rightarrow> js ''-Infinity''
      | Fin q \<Rightarrow>
          (let s = (if q < 0 then js ''-'' else []);
               a = \<bar>q\<bar>
           in s @ (if 10 ^ 21 \<le> a then numberToString a else fixed1 a)))"

definition formatScore :: "(rat \<Rightarrow> jsstr) \<Rightarrow> json \<Rightarrow> json" where
  "formatScore numberToString score =
     (if score = JNull then JStr (js ''N/A'')
      else if score = PASS then JStr (10003 # js '' PASS'')
      else if score = FAIL then JStr (10007 # js '' FAIL'')
      else (case score of JNum x \<Rightarrow> JStr (toFixed1 numberToString x) | _ \<Rightarrow> score))"

subsection \<open>\<^verbatim>\<open>formatLabel\<close>\<close>

fun capitalize :: "bool \<Rightarrow> jsstr \<Rightarrow> jsstr" where
  \<comment> \<open>\<^verbatim>\<open>.replace(/\b\w/g, char => char.toUpperCase())\<close>: a word character is replaced when
      the character before it is not one (\<open>inword\<close> tells)\<close>
  "capitalize inword [] = []"
| "capitalize inword (c # cs) =
     (if is_word c \<and> \<not> inword then upper_unit c else c) # capitalize (is_word c) cs"

definition formatLabel :: "jsstr \<Rightarrow> jsstr" where
  "formatLabel v = capitalize False (map (\<lambda>c. if c = 95 then 32 else c) v)"

subsection \<open>\<^verbatim>\<open>renderEvaluationView\<close> and \<^verbatim>\<open>renderMetricExtras\<close>\<close>

text \<open>
  \<^verbatim>\<open>renderEvaluationView\<close> computes the overall score, the overall verdict, the flags and
  the metric rows of a decoded value and lays them out as markup. The model keeps these
  bindings and every point where the function throws; it leaves out the text of the
  markup (\<^verbatim>\<open>escapeHtml\<close> needs the document). The function has no \<^verbatim>\<open>try\<close>: the exceptions
  are the \<^verbatim>\<open>TypeError\<close> of a property read from \<^verbatim>\<open>null\<close> and the \<^verbatim>\<open>TypeError\<close> of \<^verbatim>\<open>String(v)\<close>.
\<close>

definition bindE :: "error + 'a \<Rightarrow> ('a \<Rightarrow> error + 'b) \<Rightarrow> error + 'b" where
  \<comment> \<open>one statement after another: an exception of the first ends the function\<close>
  "bindE m f = (case m of Inl e \<Rightarrow> Inl e | Inr x \<Rightarrow> f x)"

fun mapE :: "('a \<Rightarrow> error + 'b) \<Rightarrow> 'a list \<Rightarrow> error + 'b list" where
  \<comment> \<open>\<^verbatim>\<open>xs.map(f)\<close> for a callback that may throw\<close>
  "mapE f [] = Inr []"
| "mapE f (x # xs) =
     (case f x of
        Inl e \<Rightarrow> Inl e
      | Inr y \<Rightarrow> (case mapE f xs of Inl e \<Rightarrow> Inl e | Inr ys \<Rightarrow> Inr (y # ys)))"

fun String_throws :: "json \<Rightarrow> bool" where
  \<comment> \<open>\<^verbatim>\<open>String(v)\<close> throws. An own \<^verbatim>\<open>toString\<close> property of a decoded object is no function
      and hides \<^verbatim>\<open>Object.prototype.toString\<close>; \<^verbatim>\<open>valueOf\<close> then gives no primitive either.
      An array joins the conversions of its elements (\<^verbatim>\<open>null\<close> gives the empty string).\<close>
  "String_throws (JObj kvs) = (map_of kvs (js ''toString'') \<noteq> None)"
| "String_throws (JArr xs) = list_ex String_throws xs"
| "String_throws v = False"

definition String_conv :: "json \<Rightarrow> error + unit" where
  \<comment> \<open>\<^verbatim>\<open>escapeHtml(String(v))\<close>, without the text\<close>
  "String_conv v = (if String_throws v then Inl TypeError else Inr ())"

definition String_if_truthy :: "json option \<Rightarrow> error + unit" where
  \<comment> \<open>\<^verbatim>\<open>p ? escapeHtml(String(p)) : ''\<close>\<close>
  "String_if_truthy p =
     (case p of None \<Rightarrow> Inr () | Some v \<Rightarrow> if truthy v then String_conv v else Inr ())"

definition runField :: "json \<Rightarrow> jsstr \<Rightarrow> error + unit" where
  \<comment> \<open>\<^verbatim>\<open>escapeHtml(String(run.f ?? ''))\<close>\<close>
  "runField run f =
     bindE (getProp run f)
       (\<lambda>p. case p of None \<Rightarrow> Inr () | Some JNull \<Rightarrow> Inr () | Some v \<Rightarrow> String_conv v)"

definition renderRun :: "json \<Rightarrow> error + unit" where
  \<comment> \<open>the callback over \<^verbatim>\<open>misclassified_runs\<close>\<close>
  "renderRun run =
     bindE (runField run (js ''run_id'')) (\<lambda>runId.
     bindE (runField run (js ''claimed'')) (\<lambda>claimed.
     bindE (runField run (js ''actual'')) (\<lambda>actual.
     runField run (js ''reasoning''))))"

definition renderMetricExtras :: "json \<Rightarrow> error + unit" where
  \<comment> \<open>both lists are rendered when they are arrays (an empty array renders nothing)\<close>
  "renderMetricExtras v =
     bindE (getProp v (js ''misclassified_runs'')) (\<lambda>runs.
     bindE (case runs of Some (JArr xs) \<Rightarrow> mapE renderRun xs | _ \<Rightarrow> Inr []) (\<lambda>items.
     bindE (getProp v (js ''fake_passes_detected'')) (\<lambda>fakes.
     bindE (case fakes of Some (JArr xs) \<Rightarrow> mapE String_conv xs | _ \<Rightarrow> Inr []) (\<lambda>items'.
     Inr ()))))"

definition is_array_index :: "jsstr \<Rightarrow> bool" where
  \<comment> \<open>a canonical numeric string up to \<open>2\<^sup>3\<^sup>2 - 2\<close>\<close>
  "is_array_index k =
     (k \<noteq> [] \<and> list_all is_digit k \<and> (k = [48] \<or> hd k \<noteq> 48) \<and>
      length k \<le> 10 \<and> digits_value k \<le> 4294967294)"

definition own_entries :: "(jsstr \<times> json) list \<Rightarrow> (jsstr \<times> json) list" where
  \<comment> \<open>the order of \<^verbatim>\<open>OrdinaryOwnPropertyKeys\<close>: the array-index keys by ascending number,
      then the other keys in creation order\<close>
  "own_entries kvs =
     sort_key (\<lambda>kv. digits_value (fst kv)) (filter (\<lambda>kv. is_array_index (fst kv)) kvs) @
     filter (\<lambda>kv. \<not> is_array_index (fst kv)) kvs"

fun Object_entries :: "json \<Rightarrow> error + (jsstr \<times> json) list" where
  "Object_entries JNull = Inl TypeError"
| "Object_entries (JObj kvs) = Inr (own_entries kvs)"
| "Object_entries (JArr xs) = Inr (zip (map (\<lambda>i. dec_digits (int i)) [0..<length xs]) xs)"
| "Object_entries (JStr s) =
     Inr (zip (map (\<lambda>i. dec_digits (int i)) [0..<length s]) (map (\<lambda>c. JStr [c]) s))"
| "Object_entries v = Inr []"

fun isArray :: "json option \<Rightarrow> bool" where
  "isArray (Some (JArr xs)) = True"
| "isArray v = False"

fun is_object :: "json \<Rightarrow> bool" where
  \<comment> \<open>\<^verbatim>\<open>typeof v === 'object'\<close>\<close>
  "is_object JNull = True"
| "is_object (JArr xs) = True"
| "is_object (JObj kvs) = True"
| "is_object v = False"

definition reserved_keys :: "jsstr list" where
  "reserved_keys = [js ''overall_score'', js ''overall_pass'', js ''summary'', js ''flags'']"

definition is_metric :: "json \<Rightarrow> bool" where
  \<comment> \<open>\<^verbatim>\<open>value && typeof value === 'object' && !Array.isArray(value) && value.score !== undefined\<close>\<close>
  "is_metric v =
     (truthy v \<and> is_object v \<and> \<not> isArray (Some v) \<and> getProp v (js ''score'') \<noteq> Inr None)"

record metric_row =
  row_key :: jsstr
  row_label :: jsstr
  row_score :: json

definition metricRow :: "jsstr \<times> json \<Rightarrow> error + metric_row" where
  \<comment> \<open>the callback of \<^verbatim>\<open>.map(([key, value]) => ...)\<close>: the score, the reasoning, the label,
      the extras\<close>
  "metricRow kv =
     bindE (getProp (snd kv) (js ''score'')) (\<lambda>score.
     bindE (getProp (snd kv) (js ''reasoning'')) (\<lambda>reasoning.
     bindE (String_if_truthy reasoning) (\<lambda>text.
     bindE (renderMetricExtras (snd kv)) (\<lambda>extras.
     Inr \<lparr> row_key = fst kv,
           row_label = formatLabel (fst kv),
           row_score = normalizeScoreValue score \<rparr>))))"

record evaluation_view =
  overallScore :: json
  overallPass :: json
  flags :: "json list"
  metricRows :: "metric_row list"

definition renderEvaluationView :: "json \<Rightarrow> json \<Rightarrow> error + evaluation_view" where
  "renderEvaluationView data rawResponse =
     bindE (getProp data (js ''overall_score'')) (\<lambda>overall_score.
     bindE (getProp data (js ''overall_pass'')) (\<lambda>overall_pass.
     bindE (getProp data (js ''summary'')) (\<lambda>summary.
     bindE (String_if_truthy summary) (\<lambda>summaryText.
     bindE (getProp data (js ''flags'')) (\<lambda>flagsField.
     bindE (Object_entries data) (\<lambda>entries.
     bindE (mapE metricRow
              (filter (\<lambda>kv. is_metric (snd kv))
                 (filter (\<lambda>kv. fst kv \<notin> set reserved_keys) entries))) (\<lambda>rows.
     bindE (mapE String_conv (case flagsField of Some (JArr xs) \<Rightarrow> xs | _ \<Rightarrow> [])) (\<lambda>flagsHtml.
     bindE (String_if_truthy (Some rawResponse)) (\<lambda>rawHtml.
     Inr \<lparr> overallScore = normalizeScoreValue overall_score,
           overallPass = (case overall_pass of Some (JBool b) \<Rightarrow> JBool b | _ \<Rightarrow> JNull),
           flags = (case flagsField of Some (JArr xs) \<Rightarrow> xs | _ \<Rightarrow> []),
           metricRows = rows \<rparr>)))))))))"

subsection \<open>The score cells of \<^verbatim>\<open>renderScoreSummary\<close> and \<^verbatim>\<open>handleDownloadCsv\<close>\<close>

definition or_else :: "json option \<Rightarrow> json option \<Rightarrow> json option" where
  \<comment> \<open>\<^verbatim>\<open>a || b\<close>\<close>
  "or_else a b = (case a of Some v \<Rightarrow> if truthy v then a else b | None \<Rightarrow> b)"

definition cardResult :: "json option \<Rightarrow> jsstr \<Rightarrow> json option" where
  \<comment> \<open>\<^verbatim>\<open>results[name]\<close> with \<^verbatim>\<open>results = data.evaluation_results || {}\<close>, at a dimension name\<close>
  "cardResult evaluation_results name =
     (case or_else evaluation_results (Some (JObj [])) of
        None \<Rightarrow> None
      | Some results \<Rightarrow> (case getProp results name of Inl e \<Rightarrow> None | Inr p \<Rightarrow> p))"

definition csvResult :: "json option \<Rightarrow> jsstr \<Rightarrow> json option" where
  \<comment> \<open>\<^verbatim>\<open>currentResults.evaluation_results?.[dim]\<close>\<close>
  "csvResult evaluation_results dimension =
     (case evaluation_results of
        None \<Rightarrow> None
      | Some JNull \<Rightarrow> None
      | Some results \<Rightarrow> (case getProp results dimension of Inl e \<Rightarrow> None | Inr p \<Rightarrow> p))"

definition cardResponse :: "json option \<Rightarrow> json" where
  \<comment> \<open>\<^verbatim>\<open>result ? (result.response || result) : null\<close>\<close>
  "cardResponse result =
     (case result of
        None \<Rightarrow> JNull
      | Some r \<Rightarrow>
          if truthy r
          then (case or_else (case getProp r (js ''response'') of Inl e \<Rightarrow> None | Inr p \<Rightarrow> p)
                       result of
                  Some v \<Rightarrow> v | None \<Rightarrow> JNull)
          else JNull)"

definition csvResponse :: "json option \<Rightarrow> json" where
  \<comment> \<open>\<^verbatim>\<open>result?.response || result || ''\<close>\<close>
  "csvResponse result =
     (let chained = (case result of
                       None \<Rightarrow> None
                     | Some r \<Rightarrow> (case getProp r (js ''response'') of Inl e \<Rightarrow> None | Inr p \<Rightarrow> p))
      in case or_else (or_else chained result) (Some (JStr [])) of
           Some v \<Rightarrow> v | None \<Rightarrow> JNull)"

definition cardLabel :: "(rat \<Rightarrow> jsstr) \<Rightarrow> json option \<Rightarrow> error + json" where
  \<comment> \<open>the text of the score card: \<^verbatim>\<open>formatScore(extractScore(response))\<close>\<close>
  "cardLabel numberToString result =
     (case extractScore (cardResponse result) of
        Inl e \<Rightarrow> Inl e
      | Inr score \<Rightarrow> Inr (formatScore numberToString score))"

definition csvCell :: "(rat \<Rightarrow> jsstr) \<Rightarrow> json option \<Rightarrow> error + json" where
  \<comment> \<open>the value of the dimension's cell of the CSV row\<close>
  "csvCell numberToString result =
     (case extractScore (csvResponse result) of
        Inl e \<Rightarrow> Inl e
      | Inr score \<Rightarrow> Inr (formatScore numberToString score))"

section \<open>The specification's notions\<close>

definition starts_number :: "jsstr \<Rightarrow> bool" where
  \<comment> \<open>after leading white space and an optional sign the text begins with a digit, with
      a point and a digit, or with \<^verbatim>\<open>Infinity\<close>\<close>
  "starts_number s =
     (let u = strip_sign (dropWhile is_space s)
      in starts_with u (js ''Infinity'') \<or>
         (case u of
            [] \<Rightarrow> False
          | c # cs \<Rightarrow> is_digit c \<or> (c = 46 \<and> (case cs of [] \<Rightarrow> False | d # ds \<Rightarrow> is_digit d))))"

definition whole_number :: "jsstr \<Rightarrow> bool" where
  \<comment> \<open>the entire string parses as a number: the numeric prefix leaves nothing\<close>
  "whole_number s = (case float_prefix s of None \<Rightarrow> False | Some p \<Rightarrow> snd p = [])"

definition is_numeric :: "json \<Rightarrow> bool" where
  \<comment> \<open>the score is \<open>Numeric(v)\<close>\<close>
  "is_numeric score = (case score of JNum x \<Rightarrow> True | _ \<Rightarrow> False)"

definition one_decimal :: "jsstr \<Rightarrow> bool" where
  \<comment> \<open>a number written with exactly one decimal place: an optional minus sign, one or
      more digits, a point, one digit\<close>
  "one_decimal t =
     (case rev (if t \<noteq> [] \<and> hd t = 45 then tl t else t) of
        d # p # r \<Rightarrow> is_digit d \<and> p = 46 \<and> r \<noteq> [] \<and> list_all is_digit r
      | _ \<Rightarrow> False)"

function title_words :: "jsstr \<Rightarrow> jsstr" where
  \<comment> \<open>title-casing each word: the first character of every maximal run of word
      characters in upper case, everything else as it is\<close>
  "title_words [] = []"
| "title_words (c # cs) =
     (if is_word c
      then upper_unit c # takeWhile is_word cs @ title_words (dropWhile is_word cs)
      else c # title_words cs)"
  by pat_completeness auto
termination
  by (relation "measure length") (auto simp: length_dropWhile_le less_Suc_eq_le)

definition spec_label :: "jsstr \<Rightarrow> jsstr" where
  \<comment> \<open>underscores replaced with spaces, then each word title-cased\<close>
  "spec_label k = title_words (map (\<lambda>c. if c = 95 then 32 else c) k)"

definition insertion_order_rows :: "(jsstr \<times> json) list \<Rightarrow> jsstr list" where
  \<comment> \<open>the keys of the metric entries in the object's insertion order\<close>
  "insertion_order_rows kvs =
     map fst (filter (\<lambda>kv. fst kv \<notin> set reserved_keys \<and> is_metric (snd kv)) kvs)"

definition rowKeys :: "json \<Rightarrow> json \<Rightarrow> error + jsstr list" where
  \<comment> \<open>the keys of the metric rows of a decoded value, in the order of the rows\<close>
  "rowKeys data rawResponse =
     (case renderEvaluationView data rawResponse of
        Inl e \<Rightarrow> Inl e
      | Inr view \<Rightarrow> Inr (map row_key (metricRows view)))"

definition is_metric_entry :: "jsstr \<times> json \<Rightarrow> bool" where
  \<comment> \<open>a key outside the reserved set whose value is a non-array, non-null object
      containing a score field\<close>
  "is_metric_entry kv =
     (fst kv \<notin> set reserved_keys \<and>
      (case snd kv of JObj props \<Rightarrow> map_of props (js ''score'') \<noteq> None | _ \<Rightarrow> False))"

definition field_converts :: "(jsstr \<times> json) list \<Rightarrow> jsstr \<Rightarrow> bool" where
  \<comment> \<open>the field is absent or its value converts to a string\<close>
  "field_converts props f =
     (case map_of props f of None \<Rightarrow> True | Some v \<Rightarrow> \<not> String_throws v)"

definition list_converts :: "(jsstr \<times> json) list \<Rightarrow> jsstr \<Rightarrow> (json \<Rightarrow> bool) \<Rightarrow> bool" where
  \<comment> \<open>the field is no array or each of its elements is fine\<close>
  "list_converts props f ok =
     (case map_of props f of Some (JArr xs) \<Rightarrow> list_all ok xs | _ \<Rightarrow> True)"

definition run_converts :: "json \<Rightarrow> bool" where
  \<comment> \<open>a misclassified run that renders: not \<^verbatim>\<open>null\<close>, and an object's four fields convert\<close>
  "run_converts run =
     (case run of
        JNull \<Rightarrow> False
      | JObj props \<Rightarrow>
          list_all (field_converts props)
            [js ''run_id'', js ''claimed'', js ''actual'', js ''reasoning'']
      | _ \<Rightarrow> True)"

definition metric_converts :: "json \<Rightarrow> bool" where
  \<comment> \<open>a metric whose reasoning, runs and fake passes all render\<close>
  "metric_converts v =
     (case v of
        JObj props \<Rightarrow>
          field_converts props (js ''reasoning'') \<and>
          list_converts props (js ''misclassified_runs'') run_converts \<and>
          list_converts props (js ''fake_passes_detected'') (\<lambda>item. \<not> String_throws item)
      | _ \<Rightarrow> True)"

definition renders :: "(jsstr \<times> json) list \<Rightarrow> json \<Rightarrow> bool" where
  \<comment> \<open>\<^verbatim>\<open>renderEvaluationView\<close> throws nothing on the object and the raw response: the
      summary, the metrics, the flags and the raw response convert to strings, and no
      misclassified run is \<^verbatim>\<open>null\<close>\<close>
  "renders kvs rawResponse =
     (field_converts kvs (js ''summary'') \<and>
      list_all (\<lambda>kv. metric_converts (snd kv)) (filter is_metric_entry kvs) \<and>
      list_converts kvs (js ''flags'') (\<lambda>flag. \<not> String_throws flag) \<and>
      \<not> String_throws rawResponse)"

definition entries_order :: "(jsstr \<times> json) list \<Rightarrow> (jsstr \<times> json) list" where
  \<comment> \<open>the metric entries with the array-index keys first, by ascending number, then the
      others in insertion order\<close>
  "entries_order kvs =
     sort_key (\<lambda>kv. digits_value (fst kv))
       (filter (\<lambda>kv. is_array_index (fst kv) \<and> is_metric_entry kv) kvs) @
     filter (\<lambda>kv. \<not> is_array_index (fst kv) \<and> is_metric_entry kv) kvs"

definition spec_row :: "jsstr \<times> json \<Rightarrow> metric_row" where
  \<comment> \<open>the result of a metric entry: its key, the label, the normalized score\<close>
  "spec_row kv =
     \<lparr> row_key = fst kv,
       row_label = spec_label (fst kv),
       row_score = normalizeScoreValue
         (case snd kv of JObj props \<Rightarrow> map_of props (js ''score'') | _ \<Rightarrow> None) \<rparr>"

subsection \<open>Inputs of the examples\<close>

definition unused_numberToString :: "rat \<Rightarrow> jsstr" where
  \<comment> \<open>stands for Number::toString in the examples, whose numbers stay below \<open>10\<^sup>2\<^sup>1\<close>\<close>
  "unused_numberToString a = []"

definition ex_object :: json where
  \<comment> \<open>an already-structured response: \<^verbatim>\<open>{"overall_score": 4}\<close>\<close>
  "ex_object = JObj [(js ''overall_score'', JNum (Fin 4))]"

definition ex_fenced :: jsstr where
  \<comment> \<open>the fenced block of the specification's examples\<close>
  "ex_fenced =
     fence_mark @ js ''json'' @ [10] @
     js ''{\"overall_score\": 4.2, \"summary\": \"Good work\", \"flags\": [\"minor_issue\"]}'' @
     [10] @ fence_mark"

definition ex_broken_fence :: jsstr where
  \<comment> \<open>a fence tagged \<^verbatim>\<open>json\<close> around \<^verbatim>\<open>{"overall_score": }\<close>, on lines of their own\<close>
  "ex_broken_fence =
     fence_mark @ js ''json'' @ [10] @ js ''{\"overall_score\": }'' @ [10] @ fence_mark"

definition ex_fence_in_json :: jsstr where
  \<comment> \<open>a JSON object whose \<^verbatim>\<open>note\<close> string holds a fenced block with the contents \<^verbatim>\<open>x\<close>\<close>
  "ex_fence_in_json =
     js ''{\"overall_score\": 4, \"note\": \"'' @ fence_mark @ js ''json x'' @ fence_mark @
     js ''\"}''"








section \<open>Properties\<close>

subsection \<open>Auxiliary facts\<close>

lemma fl_not_NaN: "fl q \<noteq> NaN"
  by (simp add: fl_def Let_def)

lemma fl_1: "fl 1 = Fin 1"
  by code_simp

lemma fl_120: "fl 120 = Fin 120"
  by code_simp

lemma normalizeScoreValue_range:
  "normalizeScoreValue v = JNull \<or> normalizeScoreValue v = PASS \<or>
   normalizeScoreValue v = FAIL \<or> (\<exists>x. normalizeScoreValue v = JNum x)"
proof (cases v)
  case None
  then show ?thesis by simp
next
  case (Some j)
  then show ?thesis by (cases j) (simp_all add: Let_def)
qed

subsection \<open>The bounds of the recursions\<close>

text \<open>
  The parser and the star of the matcher recurse on a bound, not on the text. The bound
  is only there for termination: a parse never leaves more text than it was given, so
  from twice the length of the text (and two) on more fuel changes no result of the
  parser, and from the length of the text on none of the star. A \<^verbatim>\<open>SyntaxError\<close> of
  \<open>JSON_parse\<close> is therefore an error of the text, never a lack of fuel.
\<close>

lemma skip_ws_length: "length (skip_ws s) \<le> length s"
  by (simp add: skip_ws_def length_dropWhile_le)

lemma skip_ws_Cons_length: "skip_ws s = c # cs \<Longrightarrow> length cs < length s"
  using skip_ws_length [of s] by simp

lemma json_string_length: "json_string cs = Some (k, r) \<Longrightarrow> length r < length cs"
proof (induction cs arbitrary: k r rule: json_string.induct)
  case 1
  then show ?case by simp
next
  case (2 c cs)
  then show ?case
    by (auto simp: push_unit_def split: if_splits list.splits option.splits prod.splits)
       fastforce+
qed

lemma scan_exponent_length: "scan_exponent s = Some (e, r) \<Longrightarrow> length r \<le> length s"
proof -
  assume a: "scan_exponent s = Some (e, r)"
  then obtain c t where s: "s = c # t" by (cases s) (auto simp: scan_exponent_def)
  define t1 where "t1 = (if t \<noteq> [] \<and> (hd t = 45 \<or> hd t = 43) then tl t else t)"
  have "length t1 \<le> length t" by (simp add: t1_def)
  moreover have "r = dropWhile is_digit t1"
    using a s by (auto simp: scan_exponent_def Let_def t1_def split: if_splits)
  moreover have "length (dropWhile is_digit t1) \<le> length t1" by (rule length_dropWhile_le)
  ultimately show ?thesis using s by simp
qed

lemma json_number_length: "json_number s = Some (x, r) \<Longrightarrow> length r \<le> length s"
proof -
  assume a: "json_number s = Some (x, r)"
  define s1 where "s1 = (if s \<noteq> [] \<and> hd s = 45 then tl s else s)"
  define ip where "ip = (if s1 \<noteq> [] \<and> hd s1 = 48 then [48] else takeWhile is_digit s1)"
  define s2 where "s2 = drop (length ip) s1"
  define s3 where "s3 = (if s2 \<noteq> [] \<and> hd s2 = 46 then dropWhile is_digit (tl s2) else s2)"
  have 1: "length s1 \<le> length s" by (simp add: s1_def)
  have 2: "length s2 \<le> length s1" by (simp add: s2_def)
  have "length (dropWhile is_digit (tl s2)) \<le> length (tl s2)" by (rule length_dropWhile_le)
  then have 3: "length s3 \<le> length s2" by (auto simp: s3_def)
  have "r = s3 \<or> (\<exists>e. scan_exponent s3 = Some (e, r))"
    using a
    by (auto simp: json_number_def Let_def s1_def ip_def s2_def s3_def
             split: if_splits option.splits prod.splits)
  then have "length r \<le> length s3" using scan_exponent_length by auto
  with 1 2 3 show ?thesis by simp
qed


lemma json_value_length:
  "json_value n s = Some (v, r) \<Longrightarrow> length r \<le> length s"
  "json_elements n acc s = Some (v, r) \<Longrightarrow> length r \<le> length s"
  "json_members n kvs s = Some (v, r) \<Longrightarrow> length r \<le> length s"
proof (induction n s and n acc s and n kvs s arbitrary: v r and v r and v r
       rule: json_value_json_elements_json_members.induct)
  case (1 s)
  then show ?case by simp
next
  case (2 n s)
  show ?case
  proof (cases "skip_ws s")
    case Nil
    with "2.prems" show ?thesis by simp
  next
    case (Cons c cs)
    then have cs: "length cs < length s" by (rule skip_ws_Cons_length)
    consider (obj) "c = 123" | (arr) "c \<noteq> 123" "c = 91" | (str) "c \<noteq> 123" "c \<noteq> 91" "c = 34"
      | (other) "c \<noteq> 123" "c \<noteq> 91" "c \<noteq> 34" by blast
    then show ?thesis
    proof cases
      case obj
      show ?thesis
      proof (cases "skip_ws cs")
        case Nil
        with "2.prems" Cons obj show ?thesis by simp
      next
        case (Cons d t)
        then have t: "length t < length cs" by (rule skip_ws_Cons_length)
        show ?thesis
        proof (cases "d = 125")
          case True
          with "2.prems" \<open>skip_ws s = c # cs\<close> obj Cons t cs show ?thesis by auto
        next
          case False
          with "2.prems" \<open>skip_ws s = c # cs\<close> obj Cons
          have "json_members n [] (d # t) = Some (v, r)" by simp
          with "2.IH"(1) [OF \<open>skip_ws s = c # cs\<close> obj Cons False]
          have "length r \<le> length (d # t)" by simp
          with t cs show ?thesis by simp
        qed
      qed
    next
      case arr
      show ?thesis
      proof (cases "skip_ws cs")
        case Nil
        with "2.prems" Cons arr show ?thesis by simp
      next
        case (Cons d t)
        then have t: "length t < length cs" by (rule skip_ws_Cons_length)
        show ?thesis
        proof (cases "d = 93")
          case True
          with "2.prems" \<open>skip_ws s = c # cs\<close> arr Cons t cs show ?thesis by auto
        next
          case False
          with "2.prems" \<open>skip_ws s = c # cs\<close> arr Cons
          have "json_elements n [] (d # t) = Some (v, r)" by simp
          with "2.IH"(2) [OF \<open>skip_ws s = c # cs\<close> arr Cons False]
          have "length r \<le> length (d # t)" by simp
          with t cs show ?thesis by simp
        qed
      qed
    next
      case str
      with "2.prems" Cons obtain k where "json_string cs = Some (k, r)"
        by (auto split: option.splits)
      then have "length r < length cs" by (rule json_string_length)
      with cs show ?thesis by simp
    next
      case other
      have "json_number (c # cs) = Some (x, r) \<Longrightarrow> length r \<le> length s" for x
        using json_number_length [of "c # cs" x r] cs by simp
      then show ?thesis
        using "2.prems" Cons other cs
        by (auto split: if_splits option.splits)
    qed
  qed
next
  case (3 acc s)
  then show ?case by simp
next
  case (4 n acc s)
  from "4.prems" obtain w t where vt: "json_value n s = Some (w, t)"
    by (auto split: option.splits)
  with "4.IH"(1) have t: "length t \<le> length s" by simp
  from "4.prems" vt obtain d t' where d: "skip_ws t = d # t'"
    by (cases "skip_ws t") auto
  then have t': "length t' < length t" by (rule skip_ws_Cons_length)
  show ?case
  proof (cases "d = 44")
    case True
    with "4.prems" vt d have "json_elements n (acc @ [w]) t' = Some (v, r)" by simp
    with "4.IH"(2) [OF vt refl d True] have "length r \<le> length t'" by simp
    with t t' show ?thesis by simp
  next
    case False
    with "4.prems" vt d have "r = t'" by (auto split: if_splits)
    with t t' show ?thesis by simp
  qed
next
  case (5 kvs s)
  then show ?case by simp
next
  case (6 n kvs s)
  from "6.prems" obtain c cs where c: "skip_ws s = c # cs"
    by (cases "skip_ws s") auto
  then have cs: "length cs < length s" by (rule skip_ws_Cons_length)
  from "6.prems" c have c34: "\<not> c \<noteq> 34" by (auto split: if_splits)
  from "6.prems" c c34 obtain k t where k: "json_string cs = Some (k, t)"
    by (auto split: option.splits)
  then have t: "length t < length cs" by (rule json_string_length)
  from "6.prems" c c34 k obtain d t1 where d: "skip_ws t = d # t1"
    by (cases "skip_ws t") auto
  then have t1: "length t1 < length t" by (rule skip_ws_Cons_length)
  from "6.prems" c c34 k d have d58: "\<not> d \<noteq> 58" by (auto split: if_splits)
  from "6.prems" c c34 k d d58 obtain w t2 where w: "json_value n t1 = Some (w, t2)"
    by (auto split: option.splits)
  with "6.IH"(1) [OF c c34 k refl d d58] have t2: "length t2 \<le> length t1" by simp
  from "6.prems" c c34 k d d58 w obtain e t3 where e: "skip_ws t2 = e # t3"
    by (cases "skip_ws t2") auto
  then have t3: "length t3 < length t2" by (rule skip_ws_Cons_length)
  show ?case
  proof (cases "e = 44")
    case True
    with "6.prems" c c34 k d d58 w e
    have "json_members n (obj_put kvs k w) t3 = Some (v, r)" by simp
    with "6.IH"(2) [OF c c34 k refl d d58 w refl e True] have "length r \<le> length t3" by simp
    with cs t t1 t2 t3 show ?thesis by simp
  next
    case False
    with "6.prems" c c34 k d d58 w e have "r = t3" by (auto split: if_splits)
    with cs t t1 t2 t3 show ?thesis by simp
  qed
qed


lemma json_fuel:
  "2 * length s + 1 \<le> n \<Longrightarrow> n \<le> m \<Longrightarrow> json_value m s = json_value n s"
  "2 * length s + 2 \<le> n \<Longrightarrow> n \<le> m \<Longrightarrow> json_elements m acc s = json_elements n acc s"
  "2 * length s + 2 \<le> n \<Longrightarrow> n \<le> m \<Longrightarrow> json_members m kvs s = json_members n kvs s"
proof (induction n s and n acc s and n kvs s arbitrary: m and m and m
       rule: json_value_json_elements_json_members.induct)
  case (1 s)
  then show ?case by simp
next
  case (2 n s)
  from "2.prems" obtain m' where m: "m = Suc m'" and nm: "n \<le> m'"
    by (cases m) auto
  show ?case
  proof (cases "skip_ws s")
    case Nil
    then show ?thesis by (simp add: m)
  next
    case (Cons c cs)
    then have cs: "length cs < length s" by (rule skip_ws_Cons_length)
    show ?thesis
    proof (cases "skip_ws cs")
      case Nil
      with Cons show ?thesis by (simp add: m)
    next
      case inner: (Cons d t)
      then have "length t < length cs" by (rule skip_ws_Cons_length)
      with cs "2.prems" have fuel: "2 * length (d # t) + 2 \<le> n" by simp
      have mem: "json_members m' [] (d # t) = json_members n [] (d # t)"
        if "c = 123" "d \<noteq> 125"
        using "2.IH"(1) [OF Cons that(1) inner that(2) fuel nm] .
      have elm: "json_elements m' [] (d # t) = json_elements n [] (d # t)"
        if "c \<noteq> 123" "c = 91" "d \<noteq> 93"
        using "2.IH"(2) [OF Cons that(1) that(2) inner that(3) fuel nm] .
      from mem elm show ?thesis
        by (auto simp: m Cons inner)
    qed
  qed
next
  case (3 acc s)
  then show ?case by simp
next
  case (4 n acc s)
  from "4.prems" obtain m' where m: "m = Suc m'" and nm: "n \<le> m'"
    by (cases m) auto
  from "4.prems" have f1: "2 * length s + 1 \<le> n" by simp
  have val: "json_value m' s = json_value n s"
    by (rule "4.IH"(1) [OF f1 nm])
  show ?case
  proof (cases "json_value n s")
    case None
    with val show ?thesis by (simp add: m)
  next
    case (Some p)
    obtain w t where p: "p = (w, t)" by (cases p)
    with Some have vt: "json_value n s = Some (w, t)" by simp
    then have t: "length t \<le> length s" by (rule json_value_length(1))
    show ?thesis
    proof (cases "skip_ws t")
      case Nil
      with val vt show ?thesis by (simp add: m)
    next
      case (Cons d t')
      then have "length t' < length t" by (rule skip_ws_Cons_length)
      with t "4.prems" have fuel: "2 * length t' + 2 \<le> n" by simp
      have "json_elements m' (acc @ [w]) t' = json_elements n (acc @ [w]) t'" if "d = 44"
        using "4.IH"(2) [OF vt refl Cons that fuel nm] .
      with val vt Cons show ?thesis by (simp add: m)
    qed
  qed
next
  case (5 kvs s)
  then show ?case by simp
next
  case (6 n kvs s)
  from "6.prems" obtain m' where m: "m = Suc m'" and nm: "n \<le> m'"
    by (cases m) auto
  show ?case
  proof (cases "skip_ws s")
    case Nil
    then show ?thesis by (simp add: m)
  next
    case (Cons c cs)
    then have cs: "length cs < length s" by (rule skip_ws_Cons_length)
    show ?thesis
    proof (cases "c \<noteq> 34")
      case True
      with Cons show ?thesis by (simp add: m)
    next
      case c34: False
      show ?thesis
      proof (cases "json_string cs")
        case None
        with Cons c34 show ?thesis by (simp add: m)
      next
        case (Some p)
        obtain k t where "p = (k, t)" by (cases p)
        with Some have k: "json_string cs = Some (k, t)" by simp
        then have t: "length t < length cs" by (rule json_string_length)
        show ?thesis
        proof (cases "skip_ws t")
          case Nil
          with Cons c34 k show ?thesis by (simp add: m)
        next
          case d: (Cons d t1)
          then have t1: "length t1 < length t" by (rule skip_ws_Cons_length)
          show ?thesis
          proof (cases "d \<noteq> 58")
            case True
            with Cons c34 k d show ?thesis by (simp add: m)
          next
            case d58: False
            from cs t t1 "6.prems" have f1: "2 * length t1 + 1 \<le> n" by simp
            have val: "json_value m' t1 = json_value n t1"
              by (rule "6.IH"(1) [OF Cons c34 k refl d d58 f1 nm])
            show ?thesis
            proof (cases "json_value n t1")
              case None
              with Cons c34 k d d58 val show ?thesis by (simp add: m)
            next
              case (Some q)
              obtain w t2 where "q = (w, t2)" by (cases q)
              with Some have w: "json_value n t1 = Some (w, t2)" by simp
              then have t2: "length t2 \<le> length t1" by (rule json_value_length(1))
              show ?thesis
              proof (cases "skip_ws t2")
                case Nil
                with Cons c34 k d d58 val w show ?thesis by (simp add: m)
              next
                case e: (Cons e t3)
                then have "length t3 < length t2" by (rule skip_ws_Cons_length)
                with cs t t1 t2 "6.prems" have fuel: "2 * length t3 + 2 \<le> n" by simp
                have "json_members m' (obj_put kvs k w) t3 = json_members n (obj_put kvs k w) t3"
                  if "e = 44"
                  using "6.IH"(2) [OF Cons c34 k refl d d58 w refl e that fuel nm] .
                with Cons c34 k d d58 val w e show ?thesis by (simp add: m)
              qed
            qed
          qed
        qed
      qed
    qed
  qed
qed

lemma JSON_parse_fuel:
  "2 * length s + 2 \<le> m \<Longrightarrow>
   JSON_parse s =
     (case json_value m s of
        None \<Rightarrow> Inl SyntaxError
      | Some (v, r) \<Rightarrow> if skip_ws r = [] then Inr v else Inl SyntaxError)"
  using json_fuel(1) [of s "2 * length s + 2" m] by (simp add: JSON_parse_def)

lemma star_iter_done:
  "length (fst st) = 0 \<Longrightarrow> star_iter f greedy n st = [st]"
  by (cases n) (simp_all add: Let_def)

lemma star_iter_fuel_eq:
  "length (fst st) \<le> n \<Longrightarrow> length (fst st) \<le> m \<Longrightarrow>
   star_iter f greedy n st = star_iter f greedy m st"
proof (induction n arbitrary: m st)
  case 0
  then show ?case by (simp add: star_iter_done)
next
  case (Suc n)
  show ?case
  proof (cases m)
    case 0
    with Suc.prems show ?thesis by (simp add: star_iter_done)
  next
    case (Suc m')
    have "map (star_iter f greedy n) (filter (\<lambda>st'. length (fst st') < length (fst st)) (f st)) =
          map (star_iter f greedy m') (filter (\<lambda>st'. length (fst st') < length (fst st)) (f st))"
    proof (rule map_cong [OF refl])
      fix st'
      assume "st' \<in> set (filter (\<lambda>st'. length (fst st') < length (fst st)) (f st))"
      then have "length (fst st') < length (fst st)" by simp
      with Suc.prems Suc have "length (fst st') \<le> n" "length (fst st') \<le> m'" by simp_all
      then show "star_iter f greedy n st' = star_iter f greedy m' st'" by (rule Suc.IH)
    qed
    then show ?thesis by (simp only: Suc star_iter.simps Let_def)
  qed
qed

lemma star_iter_fuel:
  "length (fst st) \<le> n \<Longrightarrow> star_iter f greedy n st = star_iter f greedy (length (fst st)) st"
  by (rule star_iter_fuel_eq) simp_all

subsection \<open>The examples of the specification\<close>

text \<open>
  The model on the inputs the specification lists with their results: the fenced block,
  the pass/fail literal in several letter cases, and the prose phrase.
\<close>

lemma example_fenced:
  "extractScore (JStr ex_fenced) = Inr (JNum (fl (42 / 10))) \<and>
   parseResponseJSON (JStr ex_fenced) =
     JObj [(js ''overall_score'', JNum (fl (42 / 10))),
           (js ''summary'', JStr (js ''Good work'')),
           (js ''flags'', JArr [JStr (js ''minor_issue'')])] \<and>
   renderEvaluationView (parseResponseJSON (JStr ex_fenced)) (JStr ex_fenced) =
     Inr \<lparr> overallScore = JNum (fl (42 / 10)), overallPass = JNull,
           flags = [JStr (js ''minor_issue'')], metricRows = [] \<rparr>"
  by code_simp

lemma example_keyword:
  "extractScore (JStr (js ''\"overall_score\": \"PASS\"'')) = Inr PASS \<and>
   extractScore (JStr (js ''\"Overall_Score\": \"pass\"'')) = Inr PASS \<and>
   extractScore (JStr (js ''\"overall_score\":\"Fail\"'')) = Inr FAIL"
  by code_simp

lemma example_phrase:
  "extractScore (JStr (js ''Score: 3.5 out of 5'')) = Inr (JNum (Fin (7 / 2)))"
  by code_simp

subsection \<open>C1: \<^verbatim>\<open>extractScore\<close> on strings, \<^verbatim>\<open>null\<close> and objects\<close>

text \<open>
  On a falsy response and on every string \<^verbatim>\<open>extractScore\<close> returns: the exceptions of
  \<^verbatim>\<open>JSON.parse\<close> and of the property reads stay inside their \<^verbatim>\<open>try\<close> blocks. On every
  other truthy value the call \<^verbatim>\<open>response.match(...)\<close>, which no \<^verbatim>\<open>try\<close> encloses, throws.
\<close>

lemma extractScore_falsy: "\<not> truthy response \<Longrightarrow> extractScore response = Inr JNull"
  by (simp add: extractScore_def)

lemma extractScore_string_returns: "\<exists>score. extractScore (JStr s) = Inr score"
  by (simp add: extractScore_def split: option.split)

lemma extractScore_not_string:
  "truthy response \<Longrightarrow> (\<forall>s. response \<noteq> JStr s) \<Longrightarrow> extractScore response = Inl TypeError"
  by (cases response) (simp_all add: extractScore_def)

text \<open>
  C1. The claim is that \<^verbatim>\<open>extractScore\<close> never raises on a string, an already-structured
  object or \<^verbatim>\<open>null\<close>. On the object \<^verbatim>\<open>{"overall_score": 4}\<close> it raises a \<^verbatim>\<open>TypeError\<close>,
  where \<^verbatim>\<open>parseResponseJSON\<close>, which tests for an object first, returns the object.
\<close>

theorem extractScore_object_raises:
  "extractScore ex_object = Inl TypeError \<and> parseResponseJSON ex_object = ex_object"
  by code_simp

subsection \<open>C2: strings that are not a verdict\<close>

lemma float_prefix_iff: "(float_prefix s \<noteq> None) = starts_number s"
proof -
  define u where "u = strip_sign (dropWhile is_space s)"
  show ?thesis
  proof (cases "starts_with u (js ''Infinity'')")
    case True
    then show ?thesis
      by (simp add: float_prefix_def starts_number_def Let_def u_def)
  next
    case False
    show ?thesis
    proof (cases u)
      case Nil
      with False show ?thesis
        by (simp add: float_prefix_def starts_number_def Let_def u_def [symmetric])
    next
      case (Cons c cs)
      with False show ?thesis
        by (cases cs)
           (auto simp: float_prefix_def starts_number_def Let_def u_def [symmetric]
                 split: prod.splits option.splits)
    qed
  qed
qed

lemma float_prefix_not_NaN: "float_prefix s = Some p \<Longrightarrow> fst p \<noteq> NaN"
  by (auto simp: float_prefix_def Let_def fl_not_NaN split: if_splits prod.splits option.splits)

lemma parseFloat_NaN_iff: "(parseFloat s \<noteq> NaN) = starts_number s"
proof (cases "float_prefix s")
  case None
  then show ?thesis using float_prefix_iff [of s] by (simp add: parseFloat_def)
next
  case (Some p)
  then show ?thesis
    using float_prefix_iff [of s] float_prefix_not_NaN [OF Some] by (simp add: parseFloat_def)
qed

text \<open>
  C2, as amended. For every string that is not \<^verbatim>\<open>pass\<close> or \<^verbatim>\<open>fail\<close> in any letter case,
  the result is a number exactly when the string, after leading white space and an
  optional sign, begins with a digit, with a point and a digit, or with \<^verbatim>\<open>Infinity\<close>; the
  number is the value of the longest numeric prefix, whatever follows it, and without
  such a prefix the result is \<^verbatim>\<open>null\<close>.
\<close>

theorem normalizeScoreValue_numeric_prefix:
  assumes "toLowerCase s \<noteq> js ''pass''" and "toLowerCase s \<noteq> js ''fail''"
  shows "(is_numeric (normalizeScoreValue (Some (JStr s))) = starts_number s) \<and>
         normalizeScoreValue (Some (JStr s)) =
           (case float_prefix s of None \<Rightarrow> JNull | Some p \<Rightarrow> JNum (fst p))"
proof (cases "float_prefix s")
  case None
  then have "\<not> starts_number s" using float_prefix_iff [of s] by simp
  with None assms show ?thesis
    by (simp add: Let_def parseFloat_def is_numeric_def)
next
  case (Some p)
  then have "starts_number s" using float_prefix_iff [of s] by simp
  moreover have "fst p \<noteq> NaN" using float_prefix_not_NaN [OF Some] .
  ultimately show ?thesis using Some assms
    by (simp add: Let_def parseFloat_def is_numeric_def)
qed

text \<open>
  The theorem at the string \<^verbatim>\<open>3.5 of 5\<close>: the result is the number 3.5.
\<close>

theorem normalizeScoreValue_numeric_prefix_witness:
  "toLowerCase (js ''3.5 of 5'') \<noteq> js ''pass'' \<and> toLowerCase (js ''3.5 of 5'') \<noteq> js ''fail'' \<and>
   starts_number (js ''3.5 of 5'') \<and>
   normalizeScoreValue (Some (JStr (js ''3.5 of 5''))) = JNum (Fin (7 / 2))"
proof -
  have p: "toLowerCase (js ''3.5 of 5'') \<noteq> js ''pass''" by code_simp
  have f: "toLowerCase (js ''3.5 of 5'') \<noteq> js ''fail''" by code_simp
  have v: "float_prefix (js ''3.5 of 5'') = Some (Fin (7 / 2), js '' of 5'')" by code_simp
  have n: "starts_number (js ''3.5 of 5'')" by code_simp
  from normalizeScoreValue_numeric_prefix [OF p f] p f v n show ?thesis by simp
qed

text \<open>
  C2 as stated fails at the string \<^verbatim>\<open>4abc\<close>: it is no verdict and not wholly a number,
  and the result is the number 4, not \<^verbatim>\<open>null\<close>.
\<close>

theorem normalizeScoreValue_trailing_text:
  "toLowerCase (js ''4abc'') \<noteq> js ''pass'' \<and> toLowerCase (js ''4abc'') \<noteq> js ''fail'' \<and>
   normalizeScoreValue (Some (JStr (js ''4abc''))) = JNum (Fin 4) \<and>
   \<not> whole_number (js ''4abc'')"
  by code_simp

subsection \<open>C3: \<^verbatim>\<open>parseResponseJSON\<close> after a fenced block that does not parse\<close>

text \<open>
  C3. The claim is that after a fenced block whose contents do not parse the whole string
  is parsed. The example is a JSON object with a fenced block inside one of its strings:
  \<^verbatim>\<open>parseResponseJSON\<close> parses the contents of the fence only and returns \<^verbatim>\<open>null\<close>, although
  \<^verbatim>\<open>JSON.parse\<close> decodes the whole string, and \<^verbatim>\<open>extractScore\<close>, which does go on to the
  whole string, finds its score.
\<close>

theorem parseResponseJSON_no_whole_parse:
  "parseResponseJSON (JStr ex_fence_in_json) = JNull \<and>
   JSON_parse ex_fence_in_json =
     Inr (JObj [(js ''overall_score'', JNum (Fin 4)),
                (js ''note'', JStr (fence_mark @ js ''json x'' @ fence_mark))]) \<and>
   extractScore (JStr ex_fence_in_json) = Inr (JNum (Fin 4))"
  by code_simp

subsection \<open>C4: the exhausted chain\<close>

text \<open>
  C4. A string with no parseable JSON, fenced or whole, with none of the four pass/fail
  literals in its lower-case form and with no match of either numeric expression yields
  \<^verbatim>\<open>null\<close>.
\<close>

theorem extractScore_exhausted:
  assumes fenced: "case str_match fence_re s of
                     None \<Rightarrow> True
                   | Some g \<Rightarrow> JSON_parse (group_text g) = Inl SyntaxError"
    and whole: "JSON_parse s = Inl SyntaxError"
    and pass1: "\<not> str_includes (toLowerCase s) (js ''\"overall_score\": \"pass\"'')"
    and pass2: "\<not> str_includes (toLowerCase s) (js ''\"overall_score\":\"pass\"'')"
    and fail1: "\<not> str_includes (toLowerCase s) (js ''\"overall_score\": \"fail\"'')"
    and fail2: "\<not> str_includes (toLowerCase s) (js ''\"overall_score\":\"fail\"'')"
    and quoted: "str_match quoted_score_re s = None"
    and loose: "str_match loose_score_re s = None"
  shows "extractScore (JStr s) = Inr JNull"
proof -
  have f: "fencedScore s = None"
    using fenced by (simp add: fencedScore_def tryScore_def split: option.splits)
  have w: "tryScore s = None"
    using whole by (simp add: tryScore_def)
  have k: "keywordScore s = JNull"
    using pass1 pass2 fail1 fail2 quoted loose by (simp add: keywordScore_def)
  show ?thesis
    by (simp add: extractScore_def f w k)
qed

text \<open>
  The theorem at the broken fence of the specification's examples.
\<close>

theorem extractScore_exhausted_witness:
  "str_match fence_re ex_broken_fence = Some (Some (js ''{\"overall_score\": }'')) \<and>
   JSON_parse (js ''{\"overall_score\": }'') = Inl SyntaxError \<and>
   JSON_parse ex_broken_fence = Inl SyntaxError \<and>
   str_match quoted_score_re ex_broken_fence = None \<and>
   str_match loose_score_re ex_broken_fence = None \<and>
   extractScore (JStr ex_broken_fence) = Inr JNull"
proof -
  have m: "str_match fence_re ex_broken_fence = Some (Some (js ''{\"overall_score\": }''))"
    by code_simp
  have p: "JSON_parse (js ''{\"overall_score\": }'') = Inl SyntaxError"
    by code_simp
  have fenced: "case str_match fence_re ex_broken_fence of
                  None \<Rightarrow> True
                | Some g \<Rightarrow> JSON_parse (group_text g) = Inl SyntaxError"
    by (simp add: m p group_text_def)
  have whole: "JSON_parse ex_broken_fence = Inl SyntaxError"
    by code_simp
  have pass1: "\<not> str_includes (toLowerCase ex_broken_fence) (js ''\"overall_score\": \"pass\"'')"
    by code_simp
  have pass2: "\<not> str_includes (toLowerCase ex_broken_fence) (js ''\"overall_score\":\"pass\"'')"
    by code_simp
  have fail1: "\<not> str_includes (toLowerCase ex_broken_fence) (js ''\"overall_score\": \"fail\"'')"
    by code_simp
  have fail2: "\<not> str_includes (toLowerCase ex_broken_fence) (js ''\"overall_score\":\"fail\"'')"
    by code_simp
  have quoted: "str_match quoted_score_re ex_broken_fence = None"
    by code_simp
  have loose: "str_match loose_score_re ex_broken_fence = None"
    by code_simp
  from extractScore_exhausted [OF fenced whole pass1 pass2 fail1 fail2 quoted loose]
    m p whole quoted loose
  show ?thesis by simp
qed

subsection \<open>C5: the presentation of a number\<close>

lemma dec_digits_digits:
  "0 \<le> n \<Longrightarrow> dec_digits n \<noteq> [] \<and> list_all is_digit (dec_digits n)"
proof (induction n rule: dec_digits.induct)
  case (1 n)
  show ?case
  proof (cases "n < 10")
    case True
    with "1.prems" show ?thesis
      by (subst (1 2) dec_digits.simps) (simp add: is_digit_def)
  next
    case False
    with "1.prems" have "0 \<le> n div 10" by simp
    with False "1.IH" have ih: "list_all is_digit (dec_digits (n div 10))" by simp
    have "0 \<le> n mod 10" "n mod 10 < 10" by simp_all
    then have d: "is_digit (48 + n mod 10)" by (simp add: is_digit_def)
    from False ih d show ?thesis
      by (subst (1 2) dec_digits.simps) simp
  qed
qed

lemma digits_value_snoc: "digits_value (ds @ [d]) = 10 * digits_value ds + (d - 48)"
  by (simp add: digits_value_def)

lemma digits_value_dec_digits: "0 \<le> n \<Longrightarrow> digits_value (dec_digits n) = n"
proof (induction n rule: dec_digits.induct)
  case (1 n)
  show ?case
  proof (cases "n < 10")
    case True
    then show ?thesis
      by (subst dec_digits.simps) (simp add: digits_value_def)
  next
    case False
    with "1.prems" have "0 \<le> n div 10" by simp
    with False "1.IH" have "digits_value (dec_digits (n div 10)) = n div 10" by simp
    with False show ?thesis
      by (subst dec_digits.simps) (simp add: digits_value_snoc)
  qed
qed

lemma one_decimal_fixed1:
  assumes "0 \<le> a"
  shows "one_decimal (fixed1 a)" and "one_decimal (js ''-'' @ fixed1 a)"
proof -
  define n where "n = \<lfloor>a * 10 + 1 / 2\<rfloor>"
  define ds where "ds = dec_digits (n div 10)"
  from assms have "0 \<le> n" by (simp add: n_def)
  then have "0 \<le> n div 10" by simp
  then have ds: "ds \<noteq> []" "list_all is_digit ds"
    using dec_digits_digits [of "n div 10"] by (simp_all add: ds_def)
  have "0 \<le> n mod 10" "n mod 10 < 10" by simp_all
  then have d: "is_digit (48 + n mod 10)" by (simp add: is_digit_def)
  have f: "fixed1 a = ds @ [46, 48 + n mod 10]"
    by (simp add: fixed1_def Let_def n_def ds_def)
  from ds obtain c cs where c: "ds = c # cs" by (cases ds) auto
  with ds have "is_digit c" by simp
  then have "c \<noteq> 45" by (auto simp: is_digit_def)
  with ds d c show "one_decimal (fixed1 a)"
    by (simp add: f one_decimal_def)
  from ds d show "one_decimal (js ''-'' @ fixed1 a)"
    by (simp add: f one_decimal_def js_def)
qed

text \<open>
  C5, as amended. For every finite \<open>v\<close> of magnitude below \<open>10\<^sup>2\<^sup>1\<close> the class is the
  gradient one, the label is \<open>v\<close> rounded to the nearest tenth and written with exactly
  one decimal place, and the hue is \<^verbatim>\<open>clamp(v, 0, 5) / 5 * 120\<close> in the arithmetic of the
  language: 120 from 5 upwards, 0 from 0 downwards. The label is computed from \<open>v\<close>, not
  from the clamped value.
\<close>

theorem presentation_of_numeric:
  assumes "\<bar>v\<bar> < 10 ^ 21"
  shows "getScoreClass (JNum (Fin v)) = js ''score-gradient'' \<and>
         (\<exists>n. 0 \<le> n \<and> \<bar>of_int n / 10 - \<bar>v\<bar>\<bar> \<le> 1 / 20 \<and>
              formatScore numberToString (JNum (Fin v)) =
                JStr ((if v < 0 then js ''-'' else []) @
                      dec_digits (n div 10) @ [46, 48 + n mod 10])) \<and>
         (\<exists>t. formatScore numberToString (JNum (Fin v)) = JStr t \<and> one_decimal t) \<and>
         getScoreStyle (JNum (Fin v)) =
           ScoreColor (num_mul (num_div (Fin (max 0 (min 5 v))) 5) 120) \<and>
         (5 \<le> v \<longrightarrow> getScoreStyle (JNum (Fin v)) = ScoreColor (Fin 120)) \<and>
         (v \<le> 0 \<longrightarrow> getScoreStyle (JNum (Fin v)) = ScoreColor (Fin 0))"
proof -
  have cls: "getScoreClass (JNum (Fin v)) = js ''score-gradient''"
    by (simp add: getScoreClass_def PASS_def FAIL_def)
  define n where "n = \<lfloor>\<bar>v\<bar> * 10 + 1 / 2\<rfloor>"
  have n0: "0 \<le> n" by (simp add: n_def)
  have "of_int n \<le> \<bar>v\<bar> * 10 + 1 / 2" "\<bar>v\<bar> * 10 + 1 / 2 < of_int n + 1"
    unfolding n_def by linarith+
  then have near: "\<bar>of_int n / 10 - \<bar>v\<bar>\<bar> \<le> 1 / 20" by linarith
  have lab: "formatScore numberToString (JNum (Fin v)) =
      JStr ((if v < 0 then js ''-'' else []) @ fixed1 \<bar>v\<bar>)"
    using assms by (simp add: formatScore_def PASS_def FAIL_def toFixed1_def Let_def)
  have fx: "fixed1 \<bar>v\<bar> = dec_digits (n div 10) @ [46, 48 + n mod 10]"
    by (simp add: fixed1_def Let_def n_def)
  have od: "one_decimal ((if v < 0 then js ''-'' else []) @ fixed1 \<bar>v\<bar>)"
    using one_decimal_fixed1 [of "\<bar>v\<bar>"] by (cases "v < 0") simp_all
  have hue: "getScoreStyle (JNum (Fin v)) =
      ScoreColor (num_mul (num_div (Fin (max 0 (min 5 v))) 5) 120)"
    by (simp add: getScoreStyle_def Let_def)
  have hi: "getScoreStyle (JNum (Fin v)) = ScoreColor (Fin 120)" if "5 \<le> v"
    using that by (simp add: hue min_def max_def fl_1 fl_120)
  have lo: "getScoreStyle (JNum (Fin v)) = ScoreColor (Fin 0)" if "v \<le> 0"
    using that by (simp add: hue min_def max_def fl_def)
  from cls n0 near lab fx od hue hi lo show ?thesis by auto
qed

text \<open>
  The theorem at 7: the label is \<^verbatim>\<open>7.0\<close>, the hue 120.
\<close>

theorem presentation_of_numeric_witness:
  "\<bar>7 :: rat\<bar> < 10 ^ 21 \<and>
   getScoreClass (JNum (Fin 7)) = js ''score-gradient'' \<and>
   formatScore unused_numberToString (JNum (Fin 7)) = JStr (js ''7.0'') \<and>
   getScoreStyle (JNum (Fin 7)) = ScoreColor (Fin 120)"
proof -
  have h: "\<bar>7 :: rat\<bar> < 10 ^ 21" by simp
  have l: "formatScore unused_numberToString (JNum (Fin 7)) = JStr (js ''7.0'')" by code_simp
  from presentation_of_numeric [OF h, of unused_numberToString]
  have "getScoreClass (JNum (Fin 7)) = js ''score-gradient''"
    and "getScoreStyle (JNum (Fin 7)) = ScoreColor (Fin 120)"
    by (simp_all add: fl_1 fl_120)
  with h l show ?thesis by simp
qed

text \<open>
  C5 as stated fails at the number Infinity, which the string \<^verbatim>\<open>Infinity\<close> normalizes to:
  its label is \<^verbatim>\<open>Infinity\<close>, with no decimal place.
\<close>

theorem presentation_of_infinity:
  "normalizeScoreValue (Some (JStr (js ''Infinity''))) = JNum PosInf \<and>
   formatScore unused_numberToString (JNum PosInf) = JStr (js ''Infinity'') \<and>
   \<not> one_decimal (js ''Infinity'')"
  by code_simp

subsection \<open>The exceptions of \<^verbatim>\<open>renderEvaluationView\<close>\<close>

text \<open>
  \<^verbatim>\<open>renderEvaluationView\<close> returns the view of an object exactly when none of its string
  conversions throws, which is the predicate \<open>renders\<close> of the object and the raw response
  (\<open>renders_iff\<close> below). The view is then given by the fields of the object.
\<close>

lemma bindE_Inr [simp]: "bindE (Inr x) f = f x"
  by (simp add: bindE_def)

lemma bindE_Inl [simp]: "bindE (Inl e) f = Inl e"
  by (simp add: bindE_def)

lemma bindE_Inr_iff: "bindE m f = Inr y \<longleftrightarrow> (\<exists>x. m = Inr x \<and> f x = Inr y)"
  by (cases m) simp_all

lemma mapE_ok: "(\<And>x. x \<in> set xs \<Longrightarrow> f x = Inr (g x)) \<Longrightarrow> mapE f xs = Inr (map g xs)"
  by (induction xs) simp_all

lemma mapE_Inr_iff: "(\<exists>ys. mapE f xs = Inr ys) \<longleftrightarrow> list_all (\<lambda>x. \<exists>y. f x = Inr y) xs"
  by (induction xs) (auto split: sum.splits)

lemma String_throws_truthy: "String_throws v \<Longrightarrow> truthy v"
  by (cases v) simp_all

lemma String_conv_ok: "\<not> String_throws v \<Longrightarrow> String_conv v = Inr ()"
  by (simp add: String_conv_def)

lemma String_conv_Inr: "String_conv v = Inr () \<longleftrightarrow> \<not> String_throws v"
  by (simp add: String_conv_def)

lemma String_if_truthy_ok:
  "(case p of None \<Rightarrow> True | Some v \<Rightarrow> \<not> String_throws v) \<Longrightarrow> String_if_truthy p = Inr ()"
  by (cases p) (simp_all add: String_if_truthy_def String_conv_def)

lemma String_if_truthy_Inr:
  "String_if_truthy p = Inr () \<longleftrightarrow> (case p of None \<Rightarrow> True | Some v \<Rightarrow> \<not> String_throws v)"
  using String_throws_truthy by (cases p) (auto simp: String_if_truthy_def String_conv_def)

lemma is_metric_iff:
  "is_metric v = (\<exists>props. v = JObj props \<and> map_of props (js ''score'') \<noteq> None)"
  by (cases v) (simp_all add: is_metric_def)

lemma is_metric_entry_iff:
  "is_metric_entry kv = (fst kv \<notin> set reserved_keys \<and> is_metric (snd kv))"
  by (cases "snd kv") (simp_all add: is_metric_entry_def is_metric_def)

lemma runField_object:
  "field_converts props f \<Longrightarrow> runField (JObj props) f = Inr ()"
  by (auto simp: runField_def field_converts_def String_conv_def split: option.splits json.splits)

lemma runField_primitive:
  "run \<noteq> JNull \<Longrightarrow> (\<forall>props. run \<noteq> JObj props) \<Longrightarrow> runField run f = Inr ()"
  by (cases run) (simp_all add: runField_def)

lemma runField_Inr: "runField (JObj props) f = Inr () \<longleftrightarrow> field_converts props f"
  by (auto simp: runField_def field_converts_def String_conv_def split: option.splits json.splits)

lemma renderRun_ok: "run_converts run \<Longrightarrow> renderRun run = Inr ()"
proof (cases run)
  case (JObj props)
  assume "run_converts run"
  with JObj show ?thesis
    by (simp add: run_converts_def renderRun_def runField_object)
qed (simp_all add: run_converts_def renderRun_def runField_primitive)

lemma renderRun_Inr: "renderRun run = Inr () \<longleftrightarrow> run_converts run"
proof (cases run)
  case (JObj props)
  then show ?thesis
    by (auto simp: renderRun_def run_converts_def bindE_Inr_iff runField_Inr)
qed (simp_all add: run_converts_def renderRun_def runField_primitive runField_def)

lemma renderMetricExtras_Inr:
  "renderMetricExtras (JObj props) = Inr () \<longleftrightarrow>
     list_converts props (js ''misclassified_runs'') run_converts \<and>
     list_converts props (js ''fake_passes_detected'') (\<lambda>item. \<not> String_throws item)"
proof -
  have r: "(\<exists>items. (case map_of props (js ''misclassified_runs'') of
                 Some (JArr xs) \<Rightarrow> mapE renderRun xs | _ \<Rightarrow> Inr []) = Inr items) \<longleftrightarrow>
        list_converts props (js ''misclassified_runs'') run_converts"
    by (simp add: list_converts_def mapE_Inr_iff renderRun_Inr split: option.splits json.splits)
  have f: "(\<exists>items. (case map_of props (js ''fake_passes_detected'') of
                 Some (JArr xs) \<Rightarrow> mapE String_conv xs | _ \<Rightarrow> Inr []) = Inr items) \<longleftrightarrow>
        list_converts props (js ''fake_passes_detected'') (\<lambda>item. \<not> String_throws item)"
    by (simp add: list_converts_def mapE_Inr_iff String_conv_Inr split: option.splits json.splits)
  show ?thesis
    unfolding r [symmetric] f [symmetric]
    by (simp add: renderMetricExtras_def bindE_Inr_iff)
qed

lemma capitalize_True:
  "capitalize True cs = takeWhile is_word cs @ capitalize False (dropWhile is_word cs)"
  by (induction cs) simp_all

lemma capitalize_title_words: "capitalize False s = title_words s"
  by (induction s rule: title_words.induct) (simp_all add: capitalize_True)

lemma formatLabel_spec_label: "formatLabel k = spec_label k"
  by (simp add: formatLabel_def spec_label_def capitalize_title_words)

lemma metricRow_ok:
  assumes "is_metric_entry kv" and "metric_converts (snd kv)"
  shows "metricRow kv = Inr (spec_row kv)"
proof -
  from assms(1) obtain props where v: "snd kv = JObj props"
    by (cases "snd kv") (simp_all add: is_metric_entry_def)
  from assms(2) v have r: "field_converts props (js ''reasoning'')"
    and e: "renderMetricExtras (JObj props) = Inr ()"
    by (simp_all add: metric_converts_def renderMetricExtras_Inr)
  from r have "String_if_truthy (map_of props (js ''reasoning'')) = Inr ()"
    by (intro String_if_truthy_ok) (simp add: field_converts_def)
  with v e show ?thesis
    by (simp add: metricRow_def spec_row_def formatLabel_spec_label)
qed

lemma metricRow_Inr:
  assumes "is_metric_entry kv"
  shows "(\<exists>row. metricRow kv = Inr row) \<longleftrightarrow> metric_converts (snd kv)"
proof
  assume "metric_converts (snd kv)"
  with assms show "\<exists>row. metricRow kv = Inr row"
    by (simp add: metricRow_ok)
next
  assume "\<exists>row. metricRow kv = Inr row"
  moreover from assms obtain props where v: "snd kv = JObj props"
    by (cases "snd kv") (simp_all add: is_metric_entry_def)
  ultimately have "String_if_truthy (map_of props (js ''reasoning'')) = Inr ()"
    and "renderMetricExtras (JObj props) = Inr ()"
    by (auto simp: metricRow_def bindE_Inr_iff)
  with v show "metric_converts (snd kv)"
    by (simp add: String_if_truthy_Inr renderMetricExtras_Inr metric_converts_def
        field_converts_def)
qed

lemma set_own_entries: "set (own_entries kvs) = set kvs"
  by (auto simp: own_entries_def)

lemma own_entries_no_index:
  "list_all (\<lambda>kv. \<not> is_array_index (fst kv)) kvs \<Longrightarrow> own_entries kvs = kvs"
  by (simp add: own_entries_def list_all_iff filter_empty_conv filter_id_conv)

lemma metric_entries_order: "filter is_metric_entry (own_entries kvs) = entries_order kvs"
  by (simp add: own_entries_def entries_order_def filter_sort)

lemma set_entries_order: "set (entries_order kvs) = {kv \<in> set kvs. is_metric_entry kv}"
  by (auto simp: metric_entries_order [symmetric] set_own_entries)

lemma length_entries_order: "length (entries_order kvs) = length (filter is_metric_entry kvs)"
proof -
  have "length (filter (\<lambda>kv. is_array_index (fst kv)) (filter is_metric_entry kvs)) +
        length (filter (\<lambda>kv. \<not> is_array_index (fst kv)) (filter is_metric_entry kvs)) =
        length (filter is_metric_entry kvs)"
    by (rule sum_length_filter_compl)
  then show ?thesis
    by (simp add: entries_order_def conj_commute)
qed

lemma entries_order_no_index:
  "list_all (\<lambda>kv. \<not> is_array_index (fst kv)) kvs \<Longrightarrow>
   entries_order kvs = filter is_metric_entry kvs"
  using metric_entries_order [of kvs] by (simp add: own_entries_no_index)

lemma renderEvaluationView_ok:
  assumes "renders kvs rawResponse"
  shows "renderEvaluationView (JObj kvs) rawResponse =
     Inr \<lparr> overallScore = normalizeScoreValue (map_of kvs (js ''overall_score'')),
           overallPass =
             (case map_of kvs (js ''overall_pass'') of Some (JBool b) \<Rightarrow> JBool b | _ \<Rightarrow> JNull),
           flags = (case map_of kvs (js ''flags'') of Some (JArr xs) \<Rightarrow> xs | _ \<Rightarrow> []),
           metricRows = map spec_row (entries_order kvs) \<rparr>"
proof -
  from assms have s: "String_if_truthy (map_of kvs (js ''summary'')) = Inr ()"
    by (intro String_if_truthy_ok) (simp add: renders_def field_converts_def)
  from assms have "list_all (\<lambda>kv. metric_converts (snd kv)) (filter is_metric_entry kvs)"
    by (simp add: renders_def)
  then have c: "\<And>kv. kv \<in> set kvs \<Longrightarrow> is_metric_entry kv \<Longrightarrow> metric_converts (snd kv)"
    by (auto simp: list_all_iff)
  have "\<And>kv. kv \<in> set (entries_order kvs) \<Longrightarrow> metricRow kv = Inr (spec_row kv)"
  proof -
    fix kv
    assume "kv \<in> set (entries_order kvs)"
    then have "kv \<in> set kvs" and "is_metric_entry kv"
      by (simp_all add: set_entries_order)
    then show "metricRow kv = Inr (spec_row kv)"
      by (simp add: metricRow_ok c)
  qed
  then have m: "mapE metricRow (entries_order kvs) = Inr (map spec_row (entries_order kvs))"
    by (rule mapE_ok)
  have e: "filter (\<lambda>kv. fst kv \<notin> set reserved_keys \<and> is_metric (snd kv)) (own_entries kvs) =
      entries_order kvs"
    unfolding metric_entries_order [symmetric]
    by (induction "own_entries kvs") (simp_all add: is_metric_entry_iff)
  from assms have "list_all (\<lambda>flag. \<not> String_throws flag)
      (case map_of kvs (js ''flags'') of Some (JArr xs) \<Rightarrow> xs | _ \<Rightarrow> [])"
    by (auto simp: renders_def list_converts_def split: option.splits json.splits)
  then have "mapE String_conv (case map_of kvs (js ''flags'') of Some (JArr xs) \<Rightarrow> xs | _ \<Rightarrow> []) =
      Inr (map (\<lambda>x. ()) (case map_of kvs (js ''flags'') of Some (JArr xs) \<Rightarrow> xs | _ \<Rightarrow> []))"
    by (intro mapE_ok) (simp add: list_all_iff String_conv_ok)
  moreover from assms have "String_if_truthy (Some rawResponse) = Inr ()"
    by (intro String_if_truthy_ok) (simp add: renders_def)
  ultimately show ?thesis
    by (simp add: renderEvaluationView_def s e m)
qed

lemma renders_iff:
  "renders kvs rawResponse \<longleftrightarrow> (\<exists>view. renderEvaluationView (JObj kvs) rawResponse = Inr view)"
proof
  assume "renders kvs rawResponse"
  then show "\<exists>view. renderEvaluationView (JObj kvs) rawResponse = Inr view"
    by (simp add: renderEvaluationView_ok)
next
  assume "\<exists>view. renderEvaluationView (JObj kvs) rawResponse = Inr view"
  then have s: "String_if_truthy (map_of kvs (js ''summary'')) = Inr ()"
    and m: "\<exists>rows. mapE metricRow (filter is_metric_entry (own_entries kvs)) = Inr rows"
    and f: "\<exists>items. mapE String_conv
              (case map_of kvs (js ''flags'') of Some (JArr xs) \<Rightarrow> xs | _ \<Rightarrow> []) = Inr items"
    and r: "String_if_truthy (Some rawResponse) = Inr ()"
    by (auto simp: renderEvaluationView_def bindE_Inr_iff is_metric_entry_iff [abs_def])
  from m have "list_all (\<lambda>kv. \<exists>row. metricRow kv = Inr row) (filter is_metric_entry (own_entries kvs))"
    by (simp add: mapE_Inr_iff)
  then have "\<And>kv. kv \<in> set kvs \<Longrightarrow> is_metric_entry kv \<Longrightarrow> metric_converts (snd kv)"
    using metricRow_Inr by (auto simp: list_all_iff set_own_entries)
  then have "list_all (\<lambda>kv. metric_converts (snd kv)) (filter is_metric_entry kvs)"
    by (auto simp: list_all_iff)
  moreover from f have "list_converts kvs (js ''flags'') (\<lambda>flag. \<not> String_throws flag)"
    by (auto simp: list_converts_def mapE_Inr_iff String_conv_Inr split: option.splits json.splits)
  moreover from s have "field_converts kvs (js ''summary'')"
    by (simp add: String_if_truthy_Inr field_converts_def)
  moreover from r have "\<not> String_throws rawResponse"
    by (simp add: String_if_truthy_Inr)
  ultimately show "renders kvs rawResponse"
    by (simp add: renders_def)
qed

lemma rowKeys_insertion_order:
  assumes "renders kvs rawResponse"
    and "list_all (\<lambda>kv. \<not> is_array_index (fst kv)) kvs"
  shows "rowKeys (JObj kvs) rawResponse = Inr (insertion_order_rows kvs)"
proof -
  have "map fst (filter is_metric_entry kvs) = insertion_order_rows kvs"
    by (simp add: insertion_order_rows_def is_metric_entry_iff [abs_def])
  with assms show ?thesis
    by (simp add: rowKeys_def renderEvaluationView_ok entries_order_no_index spec_row_def comp_def)
qed

subsection \<open>C6: the overall verdict and the flags\<close>




subsection \<open>C7: the metric rows\<close>




subsection \<open>C9: the CSV cell and the score card\<close>

lemma cardResponse_csvResponse:
  "csvResponse result = (if truthy (cardResponse result) then cardResponse result else JStr [])"
proof (cases result)
  case None
  then show ?thesis by (simp add: csvResponse_def cardResponse_def or_else_def)
next
  case (Some r)
  then show ?thesis
    by (cases r)
       (auto simp: csvResponse_def cardResponse_def or_else_def Let_def
             split: option.splits sum.splits)
qed

lemma cardResult_csvResult: "csvResult evaluation_results name = cardResult evaluation_results name"
proof (cases evaluation_results)
  case None
  then show ?thesis by (simp add: csvResult_def cardResult_def or_else_def)
next
  case (Some results)
  then show ?thesis
    by (cases results) (simp_all add: csvResult_def cardResult_def or_else_def)
qed

text \<open>
  C9. For every result of a dimension, missing ones included, the CSV cell equals the
  label of the score card: both are \<^verbatim>\<open>formatScore\<close> of \<^verbatim>\<open>extractScore\<close> of the response, and
  the two responses are the same value unless it is falsy, when the CSV takes the empty
  string, with the same score \<^verbatim>\<open>null\<close>. Where \<^verbatim>\<open>extractScore\<close> throws, it throws in both. The two
  functions also read the same result of a dimension out of the evaluation results.
\<close>

theorem csvCell_eq_cardLabel:
  "csvCell numberToString result = cardLabel numberToString result \<and>
   cardLabel numberToString result =
     map_sum id (formatScore numberToString) (extractScore (cardResponse result)) \<and>
   csvResponse result = (if truthy (cardResponse result) then cardResponse result else JStr []) \<and>
   csvResult evaluation_results name = cardResult evaluation_results name"
proof -
  have r: "csvResponse result = (if truthy (cardResponse result) then cardResponse result else JStr [])"
    by (rule cardResponse_csvResponse)
  have e: "extractScore (csvResponse result) = extractScore (cardResponse result)"
  proof (cases "truthy (cardResponse result)")
    case True
    then show ?thesis by (simp add: r)
  next
    case False
    then have "csvResponse result = JStr []" by (simp add: r)
    then have "extractScore (csvResponse result) = Inr JNull"
      by (simp add: extractScore_falsy)
    with False show ?thesis by (simp add: extractScore_falsy)
  qed
  have c: "csvCell numberToString result = cardLabel numberToString result"
    by (simp add: csvCell_def cardLabel_def e)
  have m: "cardLabel numberToString result =
      map_sum id (formatScore numberToString) (extractScore (cardResponse result))"
    by (cases "extractScore (cardResponse result)") (simp_all add: cardLabel_def)
  from c m r cardResult_csvResult show ?thesis by blast
qed

subsection \<open>C10: the other JSON types normalize to no score\<close>

text \<open>
  C10. A boolean, an array and an object, the JSON types that are neither number nor
  string nor null, each normalize to \<^verbatim>\<open>null\<close> (Unknown); with the equations for numbers,
  strings, \<^verbatim>\<open>null\<close> and \<^verbatim>\<open>undefined\<close> the function is defined on every JSON value.
\<close>

theorem normalizeScoreValue_other_types:
  "normalizeScoreValue (Some (JBool b)) = JNull \<and>
   normalizeScoreValue (Some (JArr xs)) = JNull \<and>
   normalizeScoreValue (Some (JObj kvs)) = JNull"
  by simp

end
